theory Spec2Isabelle
  imports Complex_Main "HOL-Library.AList"
begin

section \<open>Symbolic memory store: data model\<close>

text \<open>
  The store of \<^verbatim>\<open>server.py\<close> is a SQLite file with two tables. A row of \<^verbatim>\<open>texts\<close> is a
  record; the table is the list of its rows in insertion order (an \<^verbatim>\<open>UPDATE\<close> keeps the
  position of a row, an \<^verbatim>\<open>INSERT\<close> appends). The table \<^verbatim>\<open>aliases\<close> is an association list
  from alias to symbol. Python strings are character lists; a nullable column is an
  \<open>option\<close>. Scores are Python floats in the source and rationals here.
\<close>

record text_row =
  symbol :: string
  body :: string
  cat :: "string option"
  subcat :: "string option"
  hash :: string
  ts_created :: string
  ts_updated :: string

record db =
  texts :: "text_row list"
  aliases :: "(string \<times> string) list"

definition init_db :: db where
  "init_db = \<lparr>texts = [], aliases = []\<rparr>"

text \<open>The validated arguments of a save (\<^verbatim>\<open>class SaveArgs\<close>).\<close>

record SaveArgs =
  a_symbol :: string
  a_text :: string
  a_cat :: "string option"
  a_subcat :: "string option"
  a_aliases :: "string list option"

text \<open>The arguments as they arrive in the request: a missing key is \<open>None\<close>.\<close>

record raw_args =
  r_symbol :: "string option"
  r_text :: "string option"
  r_cat :: "string option"
  r_subcat :: "string option"
  r_aliases :: "string list option"

datatype error =
  HTTPException nat string
  | ValidationError
  | ValueError

text \<open>
  \<^verbatim>\<open>SaveArgs(**args)\<close>: \<^verbatim>\<open>symbol\<close> has 1 to 128 characters, \<^verbatim>\<open>text\<close> at least one,
  \<^verbatim>\<open>cat\<close> at most 64 and \<^verbatim>\<open>subcat\<close> at most 128.
\<close>

definition parse_SaveArgs :: "raw_args \<Rightarrow> error + SaveArgs" where
  "parse_SaveArgs r =
     (case r_symbol r of
        None \<Rightarrow> Inl ValidationError
      | Some s \<Rightarrow>
          if length s < 1 \<or> 128 < length s then Inl ValidationError
          else (case r_text r of
             None \<Rightarrow> Inl ValidationError
           | Some t \<Rightarrow>
               if length t < 1 then Inl ValidationError
               else if (case r_cat r of None \<Rightarrow> False | Some c \<Rightarrow> 64 < length c)
                 then Inl ValidationError
               else if (case r_subcat r of None \<Rightarrow> False | Some c \<Rightarrow> 128 < length c)
                 then Inl ValidationError
               else Inr \<lparr>a_symbol = s, a_text = t, a_cat = r_cat r,
                          a_subcat = r_subcat r, a_aliases = r_aliases r\<rparr>))"

section \<open>Helpers\<close>

text \<open>Python truthiness of an optional string: \<^verbatim>\<open>None\<close> and \<^verbatim>\<open>""\<close> are false.\<close>

definition truthy :: "string option \<Rightarrow> bool" where
  "truthy x = (case x of None \<Rightarrow> False | Some s \<Rightarrow> s \<noteq> [])"

text \<open>
  \<^verbatim>\<open>text.lower()\<close> followed by \<^verbatim>\<open>_TOKEN_RE.findall\<close> for \<^verbatim>\<open>[a-z0-9_]+\<close>. Lowering matters
  to the tokens only on the letters A to Z: no other character of the first 256 code
  points becomes a token character.
\<close>

definition lower_char :: "char \<Rightarrow> char" where
  "lower_char c =
     (case map_of (zip ''ABCDEFGHIJKLMNOPQRSTUVWXYZ'' ''abcdefghijklmnopqrstuvwxyz'') c of
        None \<Rightarrow> c | Some d \<Rightarrow> d)"

definition lower :: "string \<Rightarrow> string" where
  "lower s = map lower_char s"

definition is_token_char :: "char \<Rightarrow> bool" where
  "is_token_char c = (c \<in> set ''abcdefghijklmnopqrstuvwxyz0123456789_'')"

fun findall :: "string \<Rightarrow> string \<Rightarrow> string list" where
  "findall cur [] = (if cur = [] then [] else [cur])"
| "findall cur (c # cs) =
     (if is_token_char c then findall (cur @ [c]) cs
      else (if cur = [] then [] else [cur]) @ findall [] cs)"

text \<open>
  The loop of \<^verbatim>\<open>tokenize\<close>: \<open>out\<close> is the list built so far and \<^verbatim>\<open>seen\<close> is its set. The
  test on the length comes after the append, as in the source.
\<close>

fun dedup_loop :: "nat \<Rightarrow> string list \<Rightarrow> string list \<Rightarrow> string list" where
  "dedup_loop max_tokens out [] = out"
| "dedup_loop max_tokens out (t # ts) =
     (if t \<in> set out then dedup_loop max_tokens out ts
      else if length (out @ [t]) \<ge> max_tokens then out @ [t]
      else dedup_loop max_tokens (out @ [t]) ts)"

definition tokenize :: "string \<Rightarrow> nat \<Rightarrow> string list" where
  "tokenize text max_tokens = dedup_loop max_tokens [] (findall [] (lower text))"

definition jaccard :: "string list \<Rightarrow> string list \<Rightarrow> rat" where
  "jaccard a b =
     (if set a = {} \<and> set b = {} then 0
      else let inter = card (set a \<inter> set b); union = card (set a \<union> set b)
           in if union \<noteq> 0 then of_nat inter / of_nat union else 0)"

section \<open>The store\<close>

definition find_row :: "db \<Rightarrow> string \<Rightarrow> text_row option" where
  "find_row d sy = find (\<lambda>r. symbol r = sy) (texts d)"

definition resolve_symbol :: "db \<Rightarrow> string \<Rightarrow> string option" where
  "resolve_symbol d sy =
     (case find_row d sy of
        Some r \<Rightarrow> Some sy
      | None \<Rightarrow> map_of (aliases d) sy)"

definition get_existing_meta :: "db \<Rightarrow> string \<Rightarrow> string option \<times> string option" where
  "get_existing_meta d sy =
     (case find_row d sy of
        None \<Rightarrow> (None, None)
      | Some r \<Rightarrow> (cat r, subcat r))"

text \<open>\<^verbatim>\<open>str.strip()\<close>: the white space among the first 256 code points.\<close>

definition is_space :: "char \<Rightarrow> bool" where
  "is_space c = (of_char c \<in> {9, 10, 11, 12, 13, 28, 29, 30, 31, 32, 133, 160 :: nat})"

definition strip :: "string \<Rightarrow> string" where
  "strip s = rev (dropWhile is_space (rev (dropWhile is_space s)))"

fun save_aliases :: "string \<Rightarrow> string list \<Rightarrow> (string \<times> string) list \<Rightarrow> (string \<times> string) list" where
  "save_aliases sy [] al = al"
| "save_aliases sy (a # as) al =
     (if strip a = [] then save_aliases sy as al
      else save_aliases sy as (AList.update (strip a) sy al))"

record save_result =
  status :: string
  res_symbol :: string
  res_hash :: string
  res_ts_created :: string
  res_ts_updated :: string
  prev :: "string option \<times> string option"

text \<open>
  \<^verbatim>\<open>save_text\<close>. The clock \<^verbatim>\<open>now_iso()\<close> is the input \<open>ts\<close> and the digest
  \<^verbatim>\<open>hashlib.sha256\<close> is the parameter \<open>sha256_text\<close>.
\<close>

definition save_text ::
  "(string \<Rightarrow> string) \<Rightarrow> string \<Rightarrow> SaveArgs \<Rightarrow> db \<Rightarrow> save_result \<times> db" where
  "save_text sha256_text ts args d =
     (let h = sha256_text (a_text args);
          (prev_cat, prev_subcat) = get_existing_meta d (a_symbol args);
          existed = (find_row d (a_symbol args) \<noteq> None);
          texts1 =
            (if existed then
               map (\<lambda>r. if symbol r = a_symbol args
                         then r\<lparr>body := a_text args, cat := a_cat args,
                                subcat := a_subcat args, hash := h, ts_updated := ts\<rparr>
                         else r) (texts d)
             else texts d @
               [\<lparr>symbol = a_symbol args, body = a_text args, cat = a_cat args,
                 subcat = a_subcat args, hash = h, ts_created = ts, ts_updated = ts\<rparr>]);
          ts_created1 =
            (if existed then
               (case find (\<lambda>r. symbol r = a_symbol args) texts1 of
                  Some r \<Rightarrow> ts_created r | None \<Rightarrow> ts)
             else ts);
          aliases1 =
            (case a_aliases args of
               None \<Rightarrow> aliases d
             | Some as \<Rightarrow> save_aliases (a_symbol args) as (aliases d))
      in (\<lparr>status = (if \<not> existed then ''created'' else ''updated''),
           res_symbol = a_symbol args, res_hash = h,
           res_ts_created = ts_created1, res_ts_updated = ts,
           prev = (prev_cat, prev_subcat)\<rparr>,
          \<lparr>texts = texts1, aliases = aliases1\<rparr>))"

section \<open>Taxonomy suggestion\<close>

text \<open>
  A Python \<^verbatim>\<open>dict\<close> keeps its keys in insertion order, and an assignment to a key that is
  present keeps its position: an association list under \<open>AList.update\<close>.
\<close>

definition dict_get :: "(string \<times> rat) list \<Rightarrow> string \<Rightarrow> rat \<Rightarrow> rat" where
  "dict_get d k dflt = (case map_of d k of None \<Rightarrow> dflt | Some v \<Rightarrow> v)"

record scan_state =
  cat_scores :: "(string \<times> rat) list"
  subcat_scores :: "(string \<times> rat) list"
  neighbors :: "(string \<times> rat) list"

definition scan_init :: scan_state where
  "scan_init = \<lparr>cat_scores = [], subcat_scores = [], neighbors = []\<rparr>"

text \<open>The body of the loop over the selected rows.\<close>

definition scan_row :: "string list \<Rightarrow> rat \<Rightarrow> scan_state \<Rightarrow> text_row \<Rightarrow> scan_state" where
  "scan_row new_toks min_sim st r =
     (if \<not> truthy (cat r) \<and> \<not> truthy (subcat r) then st
      else
        let toks = tokenize (symbol r @ '' '' @ body r) 80;
            sim = jaccard new_toks toks
        in if sim < min_sim then st
           else
             let st1 = st\<lparr>neighbors := neighbors st @ [(symbol r, sim)]\<rparr>;
                 st2 = (case cat r of
                          None \<Rightarrow> st1
                        | Some c \<Rightarrow>
                            if c = [] then st1
                            else st1\<lparr>cat_scores :=
                                   AList.update c (dict_get (cat_scores st1) c 0 + sim)
                                     (cat_scores st1)\<rparr>)
             in (case (cat r, subcat r) of
                   (Some c, Some s) \<Rightarrow>
                     if c \<noteq> [] \<and> s \<noteq> [] then
                       st2\<lparr>subcat_scores :=
                             AList.update (c @ ''::'' @ s)
                               (dict_get (subcat_scores st2) (c @ ''::'' @ s) 0 + sim)
                               (subcat_scores st2)\<rparr>
                     else st2
                 | _ \<Rightarrow> st2))"

definition scan_rows :: "string list \<Rightarrow> rat \<Rightarrow> text_row list \<Rightarrow> scan_state" where
  "scan_rows new_toks min_sim rows = foldl (scan_row new_toks min_sim) scan_init rows"

text \<open>
  \<^verbatim>\<open>round(x, 4)\<close>: to the nearest multiple of 1/10000, a tie going to the even one.
\<close>

definition round4 :: "rat \<Rightarrow> rat" where
  "round4 x =
     (let n = x * 10000; f = \<lfloor>n\<rfloor>; r = n - of_int f
      in of_int (if r < 1 / 2 then f else if 1 / 2 < r then f + 1
                 else if even f then f else f + 1) / 10000)"

text \<open>
  \<^verbatim>\<open>sorted(d.items(), key=lambda kv: kv[1], reverse=True)\<close>: stable, so that entries of
  equal score keep their order.
\<close>

definition sorted_desc :: "(string \<times> rat) list \<Rightarrow> (string \<times> rat) list" where
  "sorted_desc items = sort_key (\<lambda>kv. - snd kv) items"

definition sum_values :: "(string \<times> rat) list \<Rightarrow> rat" where
  "sum_values d = sum_list (map snd d)"

definition total_or_one :: "(string \<times> rat) list \<Rightarrow> rat" where
  "total_or_one d = (if sum_values d = 0 then 1 else sum_values d)"

definition top_n :: "(string \<times> rat) list \<Rightarrow> nat \<Rightarrow> (string \<times> rat) list" where
  "top_n d n =
     (let items = take n (sorted_desc d); tot = total_or_one d
      in map (\<lambda>(k, v). (k, round4 (v / tot))) items)"

text \<open>\<^verbatim>\<open>k.split("::", 1)\<close>: the parts before and after the first \<^verbatim>\<open>::\<close>, if there is one.\<close>

fun split_first :: "string \<Rightarrow> (string \<times> string) option" where
  "split_first (c # d # cs) =
     (if c = CHR '':'' \<and> d = CHR '':'' then Some ([], cs)
      else (case split_first (d # cs) of
              None \<Rightarrow> None
            | Some (a, b) \<Rightarrow> Some (c # a, b)))"
| "split_first cs = None"

text \<open>
  The loop that builds \<^verbatim>\<open>subcats\<close>: unpacking \<^verbatim>\<open>cat, subcat = k.split("::", 1)\<close> raises
  \<^verbatim>\<open>ValueError\<close> on a key with no separator.
\<close>

fun subcat_entries :: "rat \<Rightarrow> (string \<times> rat) list \<Rightarrow> error + (string \<times> string \<times> rat) list" where
  "subcat_entries tot [] = Inr []"
| "subcat_entries tot ((k, v) # items) =
     (case split_first k of
        None \<Rightarrow> Inl ValueError
      | Some (c, s) \<Rightarrow>
          (case subcat_entries tot items of
             Inl e \<Rightarrow> Inl e
           | Inr out \<Rightarrow> Inr ((c, s, round4 (v / tot)) # out)))"

text \<open>
  The suggestion payload: \<open>sg_cat\<close> holds the pairs (value, score), \<open>sg_subcat\<close> the
  triples (cat, value, score) and \<open>sg_neighbors\<close> the pairs (symbol, sim).
\<close>

record suggestions =
  sg_cat :: "(string \<times> rat) list"
  sg_subcat :: "(string \<times> string \<times> rat) list"
  sg_neighbors :: "(string \<times> rat) list"

definition select_tagged :: "db \<Rightarrow> nat \<Rightarrow> text_row list" where
  "select_tagged d limit_rows =
     take limit_rows (filter (\<lambda>r. cat r \<noteq> None \<or> subcat r \<noteq> None) (texts d))"

definition suggest_taxonomy ::
  "db \<Rightarrow> string \<Rightarrow> string \<Rightarrow> nat \<Rightarrow> rat \<Rightarrow> error + suggestions option" where
  "suggest_taxonomy d sy text limit_rows min_sim =
     (let new_toks = tokenize (sy @ '' '' @ text) 80
      in if new_toks = [] then Inr None
         else
           let rows = select_tagged d limit_rows
           in if rows = [] then Inr None
              else
                let st = scan_rows new_toks min_sim rows
                in if cat_scores st = [] \<and> subcat_scores st = [] then Inr None
                   else
                     let nbs = take 5 (sorted_desc (neighbors st));
                         cats = top_n (cat_scores st) 3
                     in (case (if subcat_scores st \<noteq> []
                               then subcat_entries (total_or_one (subcat_scores st))
                                      (take 3 (sorted_desc (subcat_scores st)))
                               else Inr []) of
                           Inl e \<Rightarrow> Inl e
                         | Inr subcats \<Rightarrow>
                             Inr (Some \<lparr>sg_cat = cats, sg_subcat = subcats,
                                        sg_neighbors = map (\<lambda>(s, sim). (s, round4 sim)) nbs\<rparr>)))"

section \<open>The endpoint\<close>

record request =
  req_method :: "string option"
  p_name :: "string option"
  p_arguments :: raw_args
  p_uri :: "string option"

datatype response =
  InitializeResult string string string
  | NullResult
  | SaveResult save_result "suggestions option"
  | ReadResult "(string \<times> string \<times> string) list"

text \<open>\<^verbatim>\<open>"://" in uri\<close> and \<^verbatim>\<open>uri.split("/")[-1]\<close>.\<close>

fun contains :: "string \<Rightarrow> string \<Rightarrow> bool" where
  "contains sub [] = (sub = [])"
| "contains sub (c # cs) = (take (length sub) (c # cs) = sub \<or> contains sub cs)"

definition last_segment :: "string \<Rightarrow> string" where
  "last_segment uri = rev (takeWhile (\<lambda>c. c \<noteq> CHR ''/'') (rev uri))"

text \<open>
  The branch \<^verbatim>\<open>resources/read\<close> once the uri has passed the test: resolve the last
  segment and select the body. A uri that is missing or not a string is \<open>None\<close>.
\<close>

definition read_text :: "db \<Rightarrow> string \<Rightarrow> error + string" where
  "read_text d sy =
     (case resolve_symbol d sy of
        None \<Rightarrow> Inl (HTTPException 404 ''Not found'')
      | Some resolved \<Rightarrow>
          if resolved = [] then Inl (HTTPException 404 ''Not found'')
          else (case find_row d resolved of
                  None \<Rightarrow> Inl (HTTPException 404 ''Not found'')
                | Some r \<Rightarrow> Inr (body r)))"

definition resources_read :: "db \<Rightarrow> string option \<Rightarrow> error + response" where
  "resources_read d uri =
     (case uri of
        None \<Rightarrow> Inl (HTTPException 400 ''Invalid uri'')
      | Some u \<Rightarrow>
          if \<not> contains ''://'' u then Inl (HTTPException 400 ''Invalid uri'')
          else (case read_text d (last_segment u) of
                  Inl e \<Rightarrow> Inl e
                | Inr b \<Rightarrow> Inr (ReadResult [(u, ''text'', b)])))"

definition tools_save ::
  "(string \<Rightarrow> string) \<Rightarrow> string \<Rightarrow> raw_args \<Rightarrow> db \<Rightarrow> (error + response) \<times> db" where
  "tools_save sha256_text ts args d =
     (case parse_SaveArgs args of
        Inl e \<Rightarrow> (Inl e, d)
      | Inr parsed \<Rightarrow>
          let (result, d1) = save_text sha256_text ts parsed d
          in if a_cat parsed = None \<or> a_subcat parsed = None then
               (case suggest_taxonomy d1 (a_symbol parsed) (a_text parsed) 2000 (1 / 10) of
                  Inl e \<Rightarrow> (Inl e, d1)
                | Inr suggestions \<Rightarrow> (Inr (SaveResult result suggestions), d1))
             else (Inr (SaveResult result None), d1))"

definition mcp ::
  "(string \<Rightarrow> string) \<Rightarrow> string \<Rightarrow> request \<Rightarrow> db \<Rightarrow> (error + response) \<times> db" where
  "mcp sha256_text ts req d =
     (if req_method req = Some ''initialize''
        then (Inr (InitializeResult ''2025-06-18'' ''sm-mcp'' ''0.1''), d)
      else if req_method req = Some ''notifications/initialized'' then (Inr NullResult, d)
      else if req_method req = Some ''tools/call'' \<and> p_name req = Some ''sm.texts.save''
        then tools_save sha256_text ts (p_arguments req) d
      else if req_method req = Some ''resources/read'' then (resources_read d (p_uri req), d)
      else (Inl (HTTPException 400
              (''Unknown method: '' @ (case req_method req of None \<Rightarrow> ''None'' | Some m \<Rightarrow> m))), d))"

section \<open>The client: selection, prompt and undo\<close>

record DefineBlock =
  b_symbol :: "string option"
  b_project :: string
  b_cat :: "string option"
  b_subcat :: "string option"
  b_tags :: "string list"
  b_aliases :: "string list"
  b_body :: string

text \<open>
  \<^verbatim>\<open>_pick_top_suggestion\<close> up to its last statement: the values of \<^verbatim>\<open>top_cat\<close>,
  \<^verbatim>\<open>top_cat_score\<close>, \<^verbatim>\<open>chosen_sub\<close> and \<^verbatim>\<open>chosen_sub_score\<close> when the score is computed.
\<close>

definition pick_selection :: "suggestions \<Rightarrow> string option \<times> rat \<times> string option \<times> rat" where
  "pick_selection sug =
     (let cat_sug = sg_cat sug;
          sub_sug = sg_subcat sug;
          top_cat = (case cat_sug of [] \<Rightarrow> None | (v, sc) # _ \<Rightarrow> Some v);
          top_cat_score = (case cat_sug of [] \<Rightarrow> 0 | (v, sc) # _ \<Rightarrow> sc)
      in (case sub_sug of
            [] \<Rightarrow> (top_cat, top_cat_score, None, 0)
          | (c0, v0, sc0) # _ \<Rightarrow>
              (case (if truthy top_cat
                     then find (\<lambda>(c, v, sc). Some c = top_cat) sub_sug else None) of
                 Some (c, v, sc) \<Rightarrow> (top_cat, top_cat_score, Some v, sc)
               | None \<Rightarrow>
                   if c0 \<noteq> []
                   then (Some c0, (if top_cat_score \<noteq> 0 then top_cat_score else sc0),
                         Some v0, sc0)
                   else (top_cat, top_cat_score, Some v0, sc0))))"

definition pick_top_suggestion :: "suggestions \<Rightarrow> string option \<times> string option \<times> rat" where
  "pick_top_suggestion sug =
     (let (top_cat, top_cat_score, chosen_sub, chosen_sub_score) = pick_selection sug
      in (top_cat, chosen_sub,
          if truthy top_cat \<and> truthy chosen_sub then min top_cat_score chosen_sub_score
          else if top_cat_score \<noteq> 0 then top_cat_score else chosen_sub_score))"

definition MIN_SCORE :: rat where
  "MIN_SCORE = 65 / 100"

text \<open>\<^verbatim>\<open>_prompt_apply\<close>: \<open>inp\<close> is the line that \<^verbatim>\<open>input\<close> returns.\<close>

definition prompt_apply :: "string option \<Rightarrow> string option \<Rightarrow> rat \<Rightarrow> string \<Rightarrow> string" where
  "prompt_apply c s score inp =
     (let default_yes = (score \<ge> MIN_SCORE);
          dflt = (if default_yes then ''Y'' else ''n'');
          ans = strip inp
      in if ans = [] then dflt else ans)"

definition prompt_edit ::
  "string option \<Rightarrow> string option \<Rightarrow> string \<Rightarrow> string \<Rightarrow> string option \<times> string option" where
  "prompt_edit c s inp_cat inp_sub =
     ((if strip inp_cat \<noteq> [] then Some (strip inp_cat) else if truthy c then c else None),
      (if strip inp_sub \<noteq> [] then Some (strip inp_sub) else if truthy s then s else None))"

text \<open>The record kept in \<^verbatim>\<open>.sm_last_apply.json\<close>; no file, or one that does not parse, is \<open>None\<close>.\<close>

record apply_record =
  l_symbol :: string
  l_prev_cat :: "string option"
  l_prev_subcat :: "string option"
  l_new_cat :: "string option"
  l_new_subcat :: "string option"
  l_score :: rat

record world =
  server :: db
  last_apply_file :: "apply_record option"

record console =
  in_apply :: string
  in_edit_cat :: string
  in_edit_sub :: string

datatype client_error =
  SystemExit string
  | RuntimeError error

datatype outcome =
  Saved
  | NothingToUndo
  | Undone save_result
  | Applied save_result
  | Declined

text \<open>
  \<^verbatim>\<open>cli.tools_call("sm.texts.save", payload)\<close>: the request reaches \<open>mcp\<close>, and a status of
  400 or more is raised as \<^verbatim>\<open>RuntimeError\<close>.
\<close>

definition call_save ::
  "(string \<Rightarrow> string) \<Rightarrow> string \<Rightarrow> string \<Rightarrow> string \<Rightarrow> string option \<Rightarrow> string option
     \<Rightarrow> string list \<Rightarrow> db \<Rightarrow> (error + response) \<times> db" where
  "call_save sha256_text ts sy text c s als d =
     mcp sha256_text ts
       \<lparr>req_method = Some ''tools/call'', p_name = Some ''sm.texts.save'',
        p_arguments = \<lparr>r_symbol = Some sy, r_text = Some text, r_cat = c,
                        r_subcat = s, r_aliases = Some als\<rparr>,
        p_uri = None\<rparr> d"

text \<open>
  \<^verbatim>\<open>cmd_save\<close> after the block has been parsed. \<open>ts1\<close> and \<open>ts2\<close> are the server's clock
  at the first and at the second save, \<open>con\<close> holds the lines typed at the prompts. The
  handshake \<^verbatim>\<open>cli.initialize()\<close> changes no state. A save answers with an error or with
  a \<open>SaveResult\<close>; the branches for the other responses are there for totality only.
\<close>

definition cmd_save ::
  "(string \<Rightarrow> string) \<Rightarrow> string \<Rightarrow> string \<Rightarrow> string option \<Rightarrow> DefineBlock \<Rightarrow> console
     \<Rightarrow> world \<Rightarrow> (client_error + outcome) \<times> world" where
  "cmd_save sha256_text ts1 ts2 arg_symbol blk con w =
     (case (if truthy arg_symbol then arg_symbol else b_symbol blk) of
        None \<Rightarrow> (Inl (SystemExit ''Error: symbol missing.''), w)
      | Some sy \<Rightarrow>
          if sy = [] then (Inl (SystemExit ''Error: symbol missing.''), w)
          else
            (case call_save sha256_text ts1 sy (b_body blk) (b_cat blk) (b_subcat blk)
                    (b_aliases blk) (server w) of
               (Inl e, d1) \<Rightarrow> (Inl (RuntimeError e), w\<lparr>server := d1\<rparr>)
             | (Inr (SaveResult result suggestions), d1) \<Rightarrow>
                 (case suggestions of
                    None \<Rightarrow> (Inr Saved, w\<lparr>server := d1\<rparr>)
                  | Some sug \<Rightarrow>
                      if b_cat blk \<noteq> None \<and> b_subcat blk \<noteq> None
                      then (Inr Saved, w\<lparr>server := d1\<rparr>)
                      else
                        let (sug_cat, sug_sub, score) = pick_top_suggestion sug
                        in if \<not> truthy sug_cat \<and> \<not> truthy sug_sub
                           then (Inr Saved, w\<lparr>server := d1\<rparr>)
                           else
                             let ans = lower (prompt_apply sug_cat sug_sub score (in_apply con))
                             in if ans = ''u'' then
                                  (case last_apply_file w of
                                     None \<Rightarrow> (Inr NothingToUndo, w\<lparr>server := d1\<rparr>)
                                   | Some rec \<Rightarrow>
                                       (case call_save sha256_text ts2 (l_symbol rec) (b_body blk)
                                               (l_prev_cat rec) (l_prev_subcat rec)
                                               (b_aliases blk) d1 of
                                          (Inl e, d2) \<Rightarrow> (Inl (RuntimeError e), w\<lparr>server := d2\<rparr>)
                                        | (Inr (SaveResult rb _), d2) \<Rightarrow>
                                            (Inr (Undone rb), w\<lparr>server := d2\<rparr>)
                                        | (Inr _, d2) \<Rightarrow> (Inr Saved, w\<lparr>server := d2\<rparr>)))
                                else if ans = ''e'' \<or> ans = ''y'' then
                                  let (new_cat, new_sub) =
                                        (if ans = ''e''
                                         then prompt_edit sug_cat sug_sub
                                                (in_edit_cat con) (in_edit_sub con)
                                         else (sug_cat, sug_sub))
                                  in (case call_save sha256_text ts2 sy (b_body blk) new_cat new_sub
                                              (b_aliases blk) d1 of
                                        (Inl e, d2) \<Rightarrow> (Inl (RuntimeError e), w\<lparr>server := d2\<rparr>)
                                      | (Inr (SaveResult applied_res _), d2) \<Rightarrow>
                                          (Inr (Applied applied_res),
                                           \<lparr>server = d2,
                                            last_apply_file =
                                              Some \<lparr>l_symbol = sy,
                                                    l_prev_cat = fst (prev result),
                                                    l_prev_subcat = snd (prev result),
                                                    l_new_cat = new_cat,
                                                    l_new_subcat = new_sub,
                                                    l_score = score\<rparr>\<rparr>)
                                      | (Inr _, d2) \<Rightarrow> (Inr Saved, w\<lparr>server := d2\<rparr>))
                                else (Inr Declined, w\<lparr>server := d1\<rparr>))
             | (Inr _, d1) \<Rightarrow> (Inr Saved, w\<lparr>server := d1\<rparr>)))"

text \<open>
  \<^verbatim>\<open>cmd_get\<close> of the client: the uri is \<^verbatim>\<open>resource://sm/v1/texts/\<close> followed by the name,
  the request goes to \<open>mcp\<close>, and the text of the first content descriptor is printed. A
  status of 400 or more is raised as \<^verbatim>\<open>RuntimeError\<close>. The branch for a response that is
  not a read result is there for totality only.
\<close>

definition cmd_get ::
  "(string \<Rightarrow> string) \<Rightarrow> string \<Rightarrow> string \<Rightarrow> db \<Rightarrow> client_error + string" where
  "cmd_get sha256_text ts sy d =
     (case fst (mcp sha256_text ts
                  \<lparr>req_method = Some ''resources/read'', p_name = None,
                   p_arguments = \<lparr>r_symbol = None, r_text = None, r_cat = None,
                                   r_subcat = None, r_aliases = None\<rparr>,
                   p_uri = Some (''resource://sm/v1/texts/'' @ sy)\<rparr> d) of
        Inl e \<Rightarrow> Inl (RuntimeError e)
      | Inr (ReadResult contents) \<Rightarrow>
          Inr (case contents of [] \<Rightarrow> [] | (u, t, txt) # _ \<Rightarrow> txt)
      | Inr _ \<Rightarrow> Inr [])"

section \<open>Reachable stores and derived notions\<close>

text \<open>Every alias of the index points at a symbol that has a row.\<close>

definition alias_inv :: "db \<Rightarrow> bool" where
  "alias_inv d = (\<forall>(a, s) \<in> set (aliases d). s \<in> symbol ` set (texts d))"

text \<open>A run of the endpoint: each request comes with the clock at its arrival.\<close>

fun run_requests :: "(string \<Rightarrow> string) \<Rightarrow> (string \<times> request) list \<Rightarrow> db \<Rightarrow> db" where
  "run_requests H [] d = d"
| "run_requests H ((ts, req) # rs) d = run_requests H rs (snd (mcp H ts req d))"

text \<open>The similarity of a stored row to the tokens of the new entry, as the scan computes it.\<close>

definition row_sim :: "string list \<Rightarrow> text_row \<Rightarrow> rat" where
  "row_sim new_toks r = jaccard new_toks (tokenize (symbol r @ '' '' @ body r) 80)"

text \<open>Inputs of the examples: the entries of \<^verbatim>\<open>test_smoke.py\<close>.\<close>

abbreviation smoke_neighbor :: text_row where
  "smoke_neighbor \<equiv>
     \<lparr>symbol = ''TST.NEIGHBOR'', body = ''hybrid intelligence symbolic memory'',
      cat = Some ''ai'', subcat = Some ''architecture.hybrid'',
      hash = [], ts_created = ''t0'', ts_updated = ''t0''\<rparr>"

abbreviation smoke_db :: db where
  "smoke_db \<equiv> \<lparr>texts = [smoke_neighbor], aliases = []\<rparr>"

abbreviation save_one :: request where
  "save_one \<equiv>
     \<lparr>req_method = Some ''tools/call'', p_name = Some ''sm.texts.save'',
      p_arguments = \<lparr>r_symbol = Some ''TST.ONE'', r_text = Some ''hello world one'',
                      r_cat = Some ''test'', r_subcat = Some ''smoke.basic'',
                      r_aliases = Some [''one'', ''first'']\<rparr>,
      p_uri = None\<rparr>"

abbreviation save_two_raw :: raw_args where
  "save_two_raw \<equiv> \<lparr>r_symbol = Some ''TST.NEIGHBOR'', r_text = Some ''hybrid memory'',
     r_cat = None, r_subcat = None, r_aliases = None\<rparr>"

abbreviation row_b :: text_row where
  "row_b \<equiv> \<lparr>symbol = ''B'', body = ''bb'', cat = None, subcat = None,
     hash = [], ts_created = ''t0'', ts_updated = ''t0''\<rparr>"

text \<open>A store as the endpoint leaves it: alias targets have rows and no symbol is empty.\<close>

definition store_ok :: "db \<Rightarrow> bool" where
  "store_ok d = (alias_inv d \<and> (\<forall>r \<in> set (texts d). symbol r \<noteq> []))"

abbreviation eleventh_row :: text_row where
  "eleventh_row \<equiv> \<lparr>symbol = ''m'', body = ''a e f g h i'', cat = Some ''k'', subcat = None,
     hash = [], ts_created = ''t0'', ts_updated = ''t0''\<rparr>"

abbreviation save_dot_raw :: raw_args where
  "save_dot_raw \<equiv> \<lparr>r_symbol = Some ''.'', r_text = Some ''!'', r_cat = Some ''x'',
     r_subcat = None, r_aliases = None\<rparr>"

abbreviation save_blank_cat_raw :: raw_args where
  "save_blank_cat_raw \<equiv> \<lparr>r_symbol = Some ''a'', r_text = Some ''b'', r_cat = Some [],
     r_subcat = None, r_aliases = None\<rparr>"

abbreviation save_cat_raw :: raw_args where
  "save_cat_raw \<equiv> \<lparr>r_symbol = Some ''a'', r_text = Some ''b'', r_cat = Some ''x'',
     r_subcat = None, r_aliases = None\<rparr>"

text \<open>The key under which the scan aggregates a row's (category, subcategory) pair.\<close>

definition pair_key :: "text_row \<Rightarrow> string option" where
  "pair_key r =
     (case (cat r, subcat r) of
        (Some c, Some s) \<Rightarrow> if c \<noteq> [] \<and> s \<noteq> [] then Some (c @ ''::'' @ s) else None
      | _ \<Rightarrow> None)"

text \<open>The state of the scan that the endpoint runs after the save of \<open>args\<close>.\<close>

abbreviation endpoint_scan ::
  "(string \<Rightarrow> string) \<Rightarrow> string \<Rightarrow> SaveArgs \<Rightarrow> db \<Rightarrow> scan_state" where
  "endpoint_scan H ts args d \<equiv>
     scan_rows (tokenize (a_symbol args @ '' '' @ a_text args) 80) (1 / 10)
       (select_tagged (snd (save_text H ts args d)) 2000)"

abbreviation save_a_raw :: raw_args where
  "save_a_raw \<equiv> \<lparr>r_symbol = Some ''A'', r_text = Some ''aa'', r_cat = None, r_subcat = None,
     r_aliases = Some [''B'', '' x '', ''y'']\<rparr>"

abbreviation save_slash_raw :: raw_args where
  "save_slash_raw \<equiv> \<lparr>r_symbol = Some ''a/b'', r_text = Some ''aa'', r_cat = None,
     r_subcat = None, r_aliases = None\<rparr>"

abbreviation pair_row :: text_row where
  "pair_row \<equiv> \<lparr>symbol = ''n'', body = ''a e f g h'', cat = Some ''k'', subcat = Some ''p'',
     hash = [], ts_created = ''t0'', ts_updated = ''t0''\<rparr>"

abbreviation pair_db :: db where
  "pair_db \<equiv> \<lparr>texts = [pair_row, eleventh_row], aliases = []\<rparr>"

abbreviation save_s_raw :: raw_args where
  "save_s_raw \<equiv> \<lparr>r_symbol = Some ''s'', r_text = Some ''a b c d'', r_cat = None,
     r_subcat = None, r_aliases = None\<rparr>"

abbreviation save_s :: SaveArgs where
  "save_s \<equiv> \<lparr>a_symbol = ''s'', a_text = ''a b c d'', a_cat = None, a_subcat = None,
     a_aliases = None\<rparr>"









text \<open>Every category and subcategory that a suggestion names is a non-empty string.\<close>

definition named_values :: "suggestions \<Rightarrow> bool" where
  "named_values sug =
     ((\<forall>(v, sc) \<in> set (sg_cat sug). v \<noteq> []) \<and>
      (\<forall>(c, v, sc) \<in> set (sg_subcat sug). v \<noteq> []))"



text \<open>Two blocks without taxonomy, two answers at the prompt, and the runs of \<^verbatim>\<open>cmd_save\<close> on them.\<close>

abbreviation blk_two :: DefineBlock where
  "blk_two \<equiv> \<lparr>b_symbol = Some ''TST.TWO'', b_project = ''default'', b_cat = None,
     b_subcat = None, b_tags = [], b_aliases = [],
     b_body = ''hybrid intelligence and symbolic memory''\<rparr>"

abbreviation blk_three :: DefineBlock where
  "blk_three \<equiv> \<lparr>b_symbol = Some ''TST.THREE'', b_project = ''default'', b_cat = None,
     b_subcat = None, b_tags = [], b_aliases = [], b_body = ''hybrid memory other''\<rparr>"

abbreviation answer_default :: console where
  "answer_default \<equiv> \<lparr>in_apply = [], in_edit_cat = [], in_edit_sub = []\<rparr>"

abbreviation answer_undo :: console where
  "answer_undo \<equiv> \<lparr>in_apply = ''u'', in_edit_cat = [], in_edit_sub = []\<rparr>"

abbreviation world0 :: world where
  "world0 \<equiv> \<lparr>server = smoke_db, last_apply_file = None\<rparr>"

abbreviation world1 :: world where
  "world1 \<equiv> snd (cmd_save id ''t1'' ''t2'' None blk_two answer_default world0)"

abbreviation world2 :: world where
  "world2 \<equiv> snd (cmd_save id ''t3'' ''t4'' None blk_three answer_undo world1)"

section \<open>The store: lemmas\<close>

lemma find_app:
  "find P (xs @ ys) = (case find P xs of None \<Rightarrow> find P ys | Some x \<Rightarrow> Some x)"
  by (induction xs) auto

lemma find_SomeD: "find P xs = Some x \<Longrightarrow> x \<in> set xs \<and> P x"
  by (induction xs) (auto split: if_splits)

lemma find_map_row:
  "(\<And>r. symbol (f r) = symbol r) \<Longrightarrow>
   find (\<lambda>r. symbol r = s) (map f rs) = map_option f (find (\<lambda>r. symbol r = s) rs)"
  by (induction rs) auto

lemma texts_save_text:
  "texts (snd (save_text H ts args d)) =
     (if find_row d (a_symbol args) \<noteq> None then
        map (\<lambda>r. if symbol r = a_symbol args
                  then r\<lparr>body := a_text args, cat := a_cat args,
                         subcat := a_subcat args, hash := H (a_text args), ts_updated := ts\<rparr>
                  else r) (texts d)
      else texts d @
        [\<lparr>symbol = a_symbol args, body = a_text args, cat = a_cat args,
          subcat = a_subcat args, hash = H (a_text args), ts_created = ts, ts_updated = ts\<rparr>])"
  by (simp add: save_text_def Let_def split: prod.splits)

lemma aliases_save_text:
  "aliases (snd (save_text H ts args d)) =
     (case a_aliases args of None \<Rightarrow> aliases d
      | Some as \<Rightarrow> save_aliases (a_symbol args) as (aliases d))"
  by (simp add: save_text_def Let_def split: prod.splits)

lemma prev_save_text:
  "prev (fst (save_text H ts args d)) = get_existing_meta d (a_symbol args)"
  by (simp add: save_text_def Let_def split: prod.splits)

lemma find_row_save_same:
  "\<exists>r. find_row (snd (save_text H ts args d)) (a_symbol args) = Some r \<and>
       body r = a_text args \<and> cat r = a_cat args \<and> subcat r = a_subcat args \<and>
       symbol r = a_symbol args"
proof (cases "find_row d (a_symbol args)")
  case None
  then have "find (\<lambda>r. symbol r = a_symbol args) (texts d) = None"
    by (simp add: find_row_def)
  with None show ?thesis
    by (simp add: find_row_def texts_save_text find_app)
next
  case (Some r0)
  then show ?thesis
    by (auto simp: find_row_def texts_save_text find_map_row dest: find_SomeD)
qed

lemma find_row_save_other:
  "s \<noteq> a_symbol args \<Longrightarrow> find_row (snd (save_text H ts args d)) s = find_row d s"
proof -
  assume ne: "s \<noteq> a_symbol args"
  have m: "find (\<lambda>r. symbol r = s) (map f rs) = find (\<lambda>r. symbol r = s) rs"
    if "\<And>r. symbol r \<noteq> a_symbol args \<Longrightarrow> f r = r" "\<And>r. symbol (f r) = symbol r"
    for f rs
    using that ne by (induction rs) auto
  show ?thesis using ne
    by (auto simp: find_row_def texts_save_text find_app m split: option.splits)
qed

lemma symbols_map:
  "(\<And>r. symbol (f r) = symbol r) \<Longrightarrow> symbol ` set (map f rs) = symbol ` set rs"
  by (induction rs) auto

lemma symbols_save_text:
  "symbol ` set (texts (snd (save_text H ts args d))) = insert (a_symbol args) (symbol ` set (texts d))"
proof (cases "find_row d (a_symbol args)")
  case None
  then show ?thesis by (auto simp: texts_save_text)
next
  case (Some r0)
  then have "a_symbol args \<in> symbol ` set (texts d)"
    using find_SomeD[of "\<lambda>r. symbol r = a_symbol args" "texts d" r0]
    by (force simp: find_row_def)
  moreover have "symbol ` set (map (\<lambda>r. if symbol r = a_symbol args
                  then r\<lparr>body := a_text args, cat := a_cat args,
                         subcat := a_subcat args, hash := H (a_text args), ts_updated := ts\<rparr>
                  else r) (texts d)) = symbol ` set (texts d)"
    by (rule symbols_map) simp
  ultimately show ?thesis using Some by (auto simp: texts_save_text)
qed

lemma set_update_subset: "set (AList.update k v al) \<subseteq> insert (k, v) (set al)"
  by (induction al) auto

lemma save_aliases_targets:
  "(a, s) \<in> set (save_aliases sy as al) \<Longrightarrow> (a, s) \<in> set al \<or> s = sy"
proof (induction as arbitrary: al)
  case Nil
  then show ?case by simp
next
  case (Cons x xs)
  then show ?case using set_update_subset[of "strip x" sy al]
    by (auto split: if_splits)
qed

lemma alias_inv_save_text:
  assumes "alias_inv d"
  shows "alias_inv (snd (save_text H ts args d))"
  using assms save_aliases_targets
  unfolding alias_inv_def symbols_save_text aliases_save_text
  by (fastforce split: option.splits)

lemma db_tools_save:
  "snd (tools_save H ts raw d) = (case parse_SaveArgs raw of Inl e \<Rightarrow> d | Inr a \<Rightarrow> snd (save_text H ts a d))"
  by (auto simp: tools_save_def Let_def split: sum.splits prod.splits)

lemma db_mcp:
  "snd (mcp H ts req d) = d \<or> (\<exists>a. snd (mcp H ts req d) = snd (save_text H ts a d))"
  by (auto simp: mcp_def db_tools_save split: sum.splits)

lemma alias_inv_mcp: "alias_inv d \<Longrightarrow> alias_inv (snd (mcp H ts req d))"
  using db_mcp[of H ts req d] alias_inv_save_text by metis

lemma alias_inv_run: "alias_inv d \<Longrightarrow> alias_inv (run_requests H reqs d)"
  by (induction H reqs d rule: run_requests.induct) (auto simp: alias_inv_mcp)

section \<open>The suggester: lemmas\<close>

lemma split_first_sep: "split_first (c @ ''::'' @ s) \<noteq> None"
proof (induction c)
  case Nil
  then show ?case by simp
next
  case (Cons x c)
  then show ?case by (cases c) (auto split: option.splits)
qed

lemma scan_row_subcat:
  "subcat_scores (scan_row nt ms st r) = subcat_scores st \<or>
   (\<exists>c s v. subcat_scores (scan_row nt ms st r) =
      AList.update (c @ ''::'' @ s) v (subcat_scores st))"
  by (auto simp: scan_row_def Let_def split: option.splits)

lemma scan_row_subcat_keys:
  assumes "\<forall>k \<in> fst ` set (subcat_scores st). split_first k \<noteq> None"
  shows "\<forall>k \<in> fst ` set (subcat_scores (scan_row nt ms st r)). split_first k \<noteq> None"
proof -
  consider "subcat_scores (scan_row nt ms st r) = subcat_scores st"
    | c s v where "subcat_scores (scan_row nt ms st r) =
        AList.update (c @ ''::'' @ s) v (subcat_scores st)"
    using scan_row_subcat by blast
  then show ?thesis
  proof cases
    case 1
    then show ?thesis using assms by simp
  next
    case 2
    then show ?thesis using assms split_first_sep[of c s]
      by (simp add: dom_update)
  qed
qed

lemma scan_rows_subcat_keys_aux:
  "\<forall>k \<in> fst ` set (subcat_scores st). split_first k \<noteq> None \<Longrightarrow>
   \<forall>k \<in> fst ` set (subcat_scores (foldl (scan_row nt ms) st rows)). split_first k \<noteq> None"
proof (induction rows arbitrary: st)
  case Nil
  then show ?case by simp
next
  case (Cons r rows)
  show ?case
    using Cons.IH[OF scan_row_subcat_keys[OF Cons.prems]] by simp
qed

lemma scan_rows_subcat_keys:
  "\<forall>k \<in> fst ` set (subcat_scores (scan_rows nt ms rows)). split_first k \<noteq> None"
  unfolding scan_rows_def by (rule scan_rows_subcat_keys_aux) (simp add: scan_init_def)

lemma subcat_entries_ok:
  "\<forall>k \<in> fst ` set items. split_first k \<noteq> None \<Longrightarrow> \<exists>out. subcat_entries tot items = Inr out"
  by (induction items) (auto split: option.splits sum.splits)

lemma set_top_subset: "set (take n (sorted_desc xs)) \<subseteq> set xs"
  using set_take_subset[of n "sorted_desc xs"] by (simp add: sorted_desc_def)

lemma suggest_no_error: "\<exists>res. suggest_taxonomy d sy text lr ms = Inr res"
proof -
  let ?st = "scan_rows (tokenize (sy @ '' '' @ text) 80) ms (select_tagged d lr)"
  have "\<forall>k \<in> fst ` set (take 3 (sorted_desc (subcat_scores ?st))). split_first k \<noteq> None"
    using scan_rows_subcat_keys set_top_subset by (meson image_mono subsetD)
  then obtain out where
    "subcat_entries (total_or_one (subcat_scores ?st)) (take 3 (sorted_desc (subcat_scores ?st))) = Inr out"
    using subcat_entries_ok by blast
  then show ?thesis
    by (simp add: suggest_taxonomy_def Let_def)
qed

lemma scan_row_cat_empty:
  "cat_scores (scan_row nt ms st r) = [] \<longleftrightarrow>
     cat_scores st = [] \<and> (\<not> truthy (cat r) \<or> row_sim nt r < ms)"
  by (auto simp: scan_row_def Let_def row_sim_def truthy_def split: option.splits)

lemma scan_rows_cat_empty_aux:
  "cat_scores (foldl (scan_row nt ms) st rows) = [] \<longleftrightarrow>
     cat_scores st = [] \<and> (\<forall>r \<in> set rows. \<not> truthy (cat r) \<or> row_sim nt r < ms)"
  by (induction rows arbitrary: st) (auto simp: scan_row_cat_empty)

lemma scan_rows_cat_empty:
  "cat_scores (scan_rows nt ms rows) = [] \<longleftrightarrow>
     (\<forall>r \<in> set rows. \<not> truthy (cat r) \<or> row_sim nt r < ms)"
  by (simp add: scan_rows_def scan_rows_cat_empty_aux scan_init_def)

lemma scan_row_sub_imp_cat:
  "(subcat_scores st \<noteq> [] \<longrightarrow> cat_scores st \<noteq> []) \<Longrightarrow>
   (subcat_scores (scan_row nt ms st r) \<noteq> [] \<longrightarrow> cat_scores (scan_row nt ms st r) \<noteq> [])"
  by (auto simp: scan_row_def Let_def split: option.splits)

lemma scan_rows_sub_imp_cat_aux:
  "(subcat_scores st \<noteq> [] \<longrightarrow> cat_scores st \<noteq> []) \<Longrightarrow>
   (subcat_scores (foldl (scan_row nt ms) st rows) \<noteq> [] \<longrightarrow>
    cat_scores (foldl (scan_row nt ms) st rows) \<noteq> [])"
proof (induction rows arbitrary: st)
  case Nil
  then show ?case by simp
next
  case (Cons r rows)
  show ?case using Cons.IH[OF scan_row_sub_imp_cat[OF Cons.prems]] by simp
qed

lemma scan_rows_sub_imp_cat:
  "cat_scores (scan_rows nt ms rows) = [] \<Longrightarrow> subcat_scores (scan_rows nt ms rows) = []"
  using scan_rows_sub_imp_cat_aux[of scan_init nt ms rows]
  by (auto simp: scan_rows_def scan_init_def)

lemma sorted_desc_Nil: "sorted_desc d = [] \<longleftrightarrow> d = []"
  unfolding sorted_desc_def by (metis length_0_conv length_sort)

lemma top_n_empty: "top_n d n = [] \<longleftrightarrow> d = [] \<or> n = 0"
  by (auto simp: top_n_def Let_def sorted_desc_Nil)

lemma suggest_absent_iff:
  "suggest_taxonomy d sy text lr ms = Inr None \<longleftrightarrow>
     tokenize (sy @ '' '' @ text) 80 = [] \<or>
     (\<forall>r \<in> set (select_tagged d lr).
        \<not> truthy (cat r) \<or> row_sim (tokenize (sy @ '' '' @ text) 80) r < ms)"
proof -
  let ?nt = "tokenize (sy @ '' '' @ text) 80"
  let ?st = "scan_rows ?nt ms (select_tagged d lr)"
  show ?thesis
  proof (cases "cat_scores ?st = []")
    case True
    then have "subcat_scores ?st = []" by (rule scan_rows_sub_imp_cat)
    with True show ?thesis
      using scan_rows_cat_empty[of ?nt ms "select_tagged d lr"]
      by (auto simp: suggest_taxonomy_def Let_def)
  next
    case False
    then have ex: "\<not> (\<forall>r \<in> set (select_tagged d lr). \<not> truthy (cat r) \<or> row_sim ?nt r < ms)"
      using scan_rows_cat_empty[of ?nt ms "select_tagged d lr"] by simp
    then have ne: "select_tagged d lr \<noteq> []" by auto
    show ?thesis
    proof (cases "?nt = []")
      case True
      then show ?thesis by (simp add: suggest_taxonomy_def Let_def)
    next
      case nt: False
      have "suggest_taxonomy d sy text lr ms \<noteq> Inr None"
        using False ne nt
        by (auto simp: suggest_taxonomy_def Let_def split: sum.splits)
      with ex nt show ?thesis by blast
    qed
  qed
qed

lemma suggest_present_cat:
  "suggest_taxonomy d sy text lr ms = Inr (Some sug) \<Longrightarrow> sg_cat sug \<noteq> []"
proof -
  assume a: "suggest_taxonomy d sy text lr ms = Inr (Some sug)"
  let ?nt = "tokenize (sy @ '' '' @ text) 80"
  let ?st = "scan_rows ?nt ms (select_tagged d lr)"
  have "cat_scores ?st \<noteq> []"
    using a scan_rows_sub_imp_cat[of ?nt ms "select_tagged d lr"]
    by (auto simp: suggest_taxonomy_def Let_def split: if_splits sum.splits)
  moreover have "sg_cat sug = top_n (cat_scores ?st) 3"
    using a by (auto simp: suggest_taxonomy_def Let_def split: if_splits sum.splits)
  ultimately show ?thesis by (simp add: top_n_empty)
qed

section \<open>The alias index\<close>

text \<open>
  Claim C10. Starting from the empty store, after any sequence of requests to the
  endpoint every alias of the alias index maps to a symbol that has a row in the text
  store: only a save writes aliases, each pointing at the symbol it upserts, and no row
  is ever deleted.
\<close>

theorem alias_targets_exist: "alias_inv (run_requests H reqs init_db)"
  by (rule alias_inv_run) (simp add: alias_inv_def init_db_def)

theorem alias_targets_exist_witness:
  "alias_inv (run_requests id [(''t1'', save_one)] init_db) \<and>
   aliases (run_requests id [(''t1'', save_one)] init_db) =
     [(''one'', ''TST.ONE''), (''first'', ''TST.ONE'')] \<and>
   map symbol (texts (run_requests id [(''t1'', save_one)] init_db)) = [''TST.ONE'']"
proof -
  have a: "aliases (run_requests id [(''t1'', save_one)] init_db) =
     [(''one'', ''TST.ONE''), (''first'', ''TST.ONE'')]"
    by code_simp
  have b: "map symbol (texts (run_requests id [(''t1'', save_one)] init_db)) = [''TST.ONE'']"
    by code_simp
  show ?thesis
    using alias_targets_exist[of id "[(''t1'', save_one)]"] a b by blast
qed

section \<open>The previous taxonomy of a save\<close>

lemma tools_save_result:
  assumes "parse_SaveArgs raw = Inr args"
  shows "\<exists>sug. tools_save H ts raw d =
           (Inr (SaveResult (fst (save_text H ts args d)) sug), snd (save_text H ts args d))"
proof -
  obtain res where "suggest_taxonomy (snd (save_text H ts args d)) (a_symbol args) (a_text args)
      2000 (1 / 10) = Inr res"
    using suggest_no_error by blast
  then show ?thesis using assms
    by (auto simp: tools_save_def Let_def split: prod.splits)
qed

text \<open>
  Claim C2. For every save that passes validation, whether the symbol is new or not and
  whatever taxonomy it supplies, the save answers, and the field \<open>prev\<close> of its result is
  the pair (category, subcategory) that the store held for that symbol before this save
  wrote, and (null, null) when the symbol had no row; after the save the row holds the
  taxonomy of the request.
\<close>

theorem save_previous_is_prewrite:
  assumes "parse_SaveArgs raw = Inr args"
  shows "\<exists>res sug d'. tools_save H ts raw d = (Inr (SaveResult res sug), d') \<and>
           prev res = (case find_row d (a_symbol args) of
                         None \<Rightarrow> (None, None)
                       | Some r \<Rightarrow> (cat r, subcat r)) \<and>
           (\<exists>r'. find_row d' (a_symbol args) = Some r' \<and>
                 cat r' = a_cat args \<and> subcat r' = a_subcat args)"
proof -
  obtain sug where t: "tools_save H ts raw d =
      (Inr (SaveResult (fst (save_text H ts args d)) sug), snd (save_text H ts args d))"
    using tools_save_result[OF assms] by blast
  have p: "prev (fst (save_text H ts args d)) =
      (case find_row d (a_symbol args) of None \<Rightarrow> (None, None) | Some r \<Rightarrow> (cat r, subcat r))"
    by (simp add: prev_save_text get_existing_meta_def)
  obtain r' where "find_row (snd (save_text H ts args d)) (a_symbol args) = Some r'"
    "cat r' = a_cat args" "subcat r' = a_subcat args"
    using find_row_save_same by blast
  with t p show ?thesis by blast
qed

theorem save_previous_is_prewrite_witness:
  "\<exists>res sug d'. tools_save id ''t1'' save_two_raw smoke_db = (Inr (SaveResult res sug), d') \<and>
     prev res = (Some ''ai'', Some ''architecture.hybrid'') \<and>
     (\<exists>r'. find_row d' ''TST.NEIGHBOR'' = Some r' \<and> cat r' = None \<and> subcat r' = None)"
proof -
  have p: "parse_SaveArgs save_two_raw =
     Inr \<lparr>a_symbol = ''TST.NEIGHBOR'', a_text = ''hybrid memory'', a_cat = None,
          a_subcat = None, a_aliases = None\<rparr>"
    by (simp add: parse_SaveArgs_def)
  have f: "find_row smoke_db ''TST.NEIGHBOR'' = Some smoke_neighbor"
    by (simp add: find_row_def)
  show ?thesis
    using save_previous_is_prewrite[OF p, of id "''t1''" smoke_db] f by simp
qed

section \<open>Absent suggestions\<close>

text \<open>
  Claim C8. The suggestion computation never raises: it always returns a result. When
  the token list of the new entry is empty, or no scanned row with a category reaches the
  minimal similarity (so that no category and no pair aggregate exists), the result is
  the absent one, \<open>None\<close>; a result that is present has a category entry, so it is never
  empty. The computation writes nothing: the store after the endpoint's save is the store
  that the write itself left.
\<close>

theorem suggest_never_faults:
  "(\<exists>res. suggest_taxonomy d sy tx lr ms = Inr res) \<and>
   (tokenize (sy @ '' '' @ tx) 80 = [] \<longrightarrow> suggest_taxonomy d sy tx lr ms = Inr None) \<and>
   ((\<forall>r \<in> set (select_tagged d lr).
        \<not> truthy (cat r) \<or> row_sim (tokenize (sy @ '' '' @ tx) 80) r < ms)
      \<longrightarrow> suggest_taxonomy d sy tx lr ms = Inr None) \<and>
   (\<forall>sug. suggest_taxonomy d sy tx lr ms = Inr (Some sug) \<longrightarrow> sg_cat sug \<noteq> []) \<and>
   (\<forall>args. parse_SaveArgs raw = Inr args \<longrightarrow>
        snd (tools_save H ts raw d) = snd (save_text H ts args d))"
  using suggest_no_error[of d sy tx lr ms] suggest_absent_iff[of d sy tx lr ms]
    suggest_present_cat[of d sy tx lr ms]
  by (auto simp: db_tools_save)

theorem suggest_never_faults_witness:
  "suggest_taxonomy smoke_db ''.'' ''!'' 2000 (1 / 10) = Inr None \<and>
   suggest_taxonomy smoke_db ''zzz'' ''qqq'' 2000 (1 / 10) = Inr None"
proof -
  have t: "tokenize (''.'' @ '' '' @ ''!'') 80 = []"
    by code_simp
  have h: "\<forall>r \<in> set (select_tagged smoke_db 2000).
        \<not> truthy (cat r) \<or> row_sim (tokenize (''zzz'' @ '' '' @ ''qqq'') 80) r < 1 / 10"
    by code_simp
  show ?thesis
    using suggest_never_faults[of smoke_db "''.''" "''!''" 2000 "1 / 10"]
      suggest_never_faults[of smoke_db "''zzz''" "''qqq''" 2000 "1 / 10"] t h
    by blast
qed

section \<open>Save, then get\<close>

lemma map_of_save_aliases_keep:
  "map_of al k = Some sy \<Longrightarrow> map_of (save_aliases sy as al) k = Some sy"
  by (induction as arbitrary: al) (auto simp: update_conv')

lemma map_of_save_aliases_new:
  "a \<in> set as \<Longrightarrow> strip a \<noteq> [] \<Longrightarrow> map_of (save_aliases sy as al) (strip a) = Some sy"
proof (induction as arbitrary: al)
  case Nil
  then show ?case by simp
next
  case (Cons x xs)
  show ?case
  proof (cases "a = x")
    case True
    then show ?thesis using Cons.prems
      by (simp add: map_of_save_aliases_keep update_conv')
  next
    case False
    then show ?thesis using Cons by auto
  qed
qed

lemma read_text_saved:
  assumes "a_symbol args \<noteq> []"
  shows "read_text (snd (save_text H ts args d)) (a_symbol args) = Inr (a_text args)"
proof -
  obtain r where "find_row (snd (save_text H ts args d)) (a_symbol args) = Some r"
    "body r = a_text args"
    using find_row_save_same by blast
  then show ?thesis using assms
    by (simp add: read_text_def resolve_symbol_def)
qed

lemma read_text_alias:
  assumes "a_symbol args \<noteq> []" "a_aliases args = Some as" "a \<in> set as" "strip a \<noteq> []"
    "find_row d (strip a) = None"
  shows "read_text (snd (save_text H ts args d)) (strip a) = Inr (a_text args)"
proof (cases "strip a = a_symbol args")
  case True
  then show ?thesis using read_text_saved[OF assms(1)] by simp
next
  case False
  then have n: "find_row (snd (save_text H ts args d)) (strip a) = None"
    using assms(5) by (simp add: find_row_save_other)
  have m: "map_of (aliases (snd (save_text H ts args d))) (strip a) = Some (a_symbol args)"
    using assms by (simp add: aliases_save_text map_of_save_aliases_new)
  obtain r where "find_row (snd (save_text H ts args d)) (a_symbol args) = Some r"
    "body r = a_text args"
    using find_row_save_same by blast
  then show ?thesis using n m assms(1)
    by (simp add: read_text_def resolve_symbol_def)
qed

section \<open>Reading a resource\<close>

lemma take_prefix_iff: "take (length sub) xs = sub \<longleftrightarrow> (\<exists>post. xs = sub @ post)"
  by (metis append_eq_conv_conj append_take_drop_id)

lemma contains_iff: "contains sub s \<longleftrightarrow> (\<exists>pre post. s = pre @ sub @ post)"
proof (induction s)
  case Nil
  then show ?case by auto
next
  case (Cons c cs)
  have "(\<exists>pre post. c # cs = pre @ sub @ post) \<longleftrightarrow>
        (\<exists>post. c # cs = sub @ post) \<or> (\<exists>pre post. cs = pre @ sub @ post)"
  proof
    assume "\<exists>pre post. c # cs = pre @ sub @ post"
    then obtain pre post where e: "c # cs = pre @ sub @ post" by blast
    show "(\<exists>post. c # cs = sub @ post) \<or> (\<exists>pre post. cs = pre @ sub @ post)"
    proof (cases pre)
      case Nil
      then show ?thesis using e by auto
    next
      case (Cons p ps)
      then show ?thesis using e by auto
    qed
  next
    assume "(\<exists>post. c # cs = sub @ post) \<or> (\<exists>pre post. cs = pre @ sub @ post)"
    then show "\<exists>pre post. c # cs = pre @ sub @ post"
    proof
      assume "\<exists>post. c # cs = sub @ post"
      then show ?thesis by (metis append_Nil)
    next
      assume "\<exists>pre post. cs = pre @ sub @ post"
      then show ?thesis by (metis append_Cons)
    qed
  qed
  then show ?case using Cons.IH take_prefix_iff[of sub "c # cs"]
    by (simp del: take_Suc_Cons)
qed

lemma parse_symbol_nonempty: "parse_SaveArgs raw = Inr a \<Longrightarrow> a_symbol a \<noteq> []"
  by (auto simp: parse_SaveArgs_def split: option.splits if_splits)

lemma db_mcp_save:
  "snd (mcp H ts req d) = d \<or>
   (\<exists>a. a_symbol a \<noteq> [] \<and> snd (mcp H ts req d) = snd (save_text H ts a d))"
  using parse_symbol_nonempty
  by (auto simp: mcp_def db_tools_save split: sum.splits)

lemma store_ok_save_text:
  assumes "store_ok d" "a_symbol a \<noteq> []"
  shows "store_ok (snd (save_text H ts a d))"
proof -
  have "\<forall>s \<in> symbol ` set (texts (snd (save_text H ts a d))). s \<noteq> []"
    using assms unfolding symbols_save_text store_ok_def by auto
  then show ?thesis using assms alias_inv_save_text
    by (auto simp: store_ok_def)
qed

lemma store_ok_mcp: "store_ok d \<Longrightarrow> store_ok (snd (mcp H ts req d))"
  using db_mcp_save[of H ts req d] store_ok_save_text by metis

lemma store_ok_run: "store_ok d \<Longrightarrow> store_ok (run_requests H reqs d)"
  by (induction H reqs d rule: run_requests.induct) (auto simp: store_ok_mcp)

lemma store_ok_reachable: "store_ok (run_requests H reqs init_db)"
  by (rule store_ok_run) (simp add: store_ok_def alias_inv_def init_db_def)

lemma find_row_Some_symbol: "find_row d s = Some r \<Longrightarrow> symbol r = s \<and> r \<in> set (texts d)"
  using find_SomeD[of "\<lambda>r. symbol r = s" "texts d" r] by (simp add: find_row_def)

lemma find_row_None_iff: "find_row d s = None \<longleftrightarrow> s \<notin> symbol ` set (texts d)"
  by (auto simp: find_row_def find_None_iff)

lemma resolve_has_row:
  assumes "store_ok d" "resolve_symbol d s = Some t"
  shows "t \<noteq> [] \<and> (\<exists>r. find_row d t = Some r)"
proof (cases "find_row d s")
  case None
  then have m: "map_of (aliases d) s = Some t"
    using assms(2) by (simp add: resolve_symbol_def)
  then have "(s, t) \<in> set (aliases d)" by (rule map_of_SomeD)
  then have "t \<in> symbol ` set (texts d)"
    using assms(1) by (auto simp: store_ok_def alias_inv_def)
  then show ?thesis using assms(1) find_row_None_iff[of d t]
    by (auto simp: store_ok_def)
next
  case (Some r)
  then have "t = s" using assms(2) by (simp add: resolve_symbol_def)
  then show ?thesis using Some find_row_Some_symbol[OF Some] assms(1)
    by (auto simp: store_ok_def)
qed

text \<open>
  Claim C6, as the code has it. On a store that the endpoint has produced, a read whose
  uri is missing, is not a string or does not contain \<^verbatim>\<open>://\<close> fails with status 400; any
  other uri is accepted whatever its scheme and path, and the segment after its last
  slash is resolved: if it is neither a symbol nor an alias the read fails with status
  404, otherwise the body of the resolved row is returned in one content descriptor that
  carries the uri of the request.
\<close>

theorem read_outcomes:
  "resources_read (run_requests H reqs init_db) None = Inl (HTTPException 400 ''Invalid uri'') \<and>
   ((\<nexists>pre post. u = pre @ ''://'' @ post) \<longrightarrow>
      resources_read (run_requests H reqs init_db) (Some u) =
        Inl (HTTPException 400 ''Invalid uri'')) \<and>
   ((\<exists>pre post. u = pre @ ''://'' @ post) \<and>
    resolve_symbol (run_requests H reqs init_db) (last_segment u) = None \<longrightarrow>
      resources_read (run_requests H reqs init_db) (Some u) =
        Inl (HTTPException 404 ''Not found'')) \<and>
   ((\<exists>pre post. u = pre @ ''://'' @ post) \<and>
    resolve_symbol (run_requests H reqs init_db) (last_segment u) = Some s \<longrightarrow>
      (\<exists>r. find_row (run_requests H reqs init_db) s = Some r \<and>
           resources_read (run_requests H reqs init_db) (Some u) =
             Inr (ReadResult [(u, ''text'', body r)])))"
proof -
  let ?d = "run_requests H reqs init_db"
  have c: "contains ''://'' u \<longleftrightarrow> (\<exists>pre post. u = pre @ ''://'' @ post)"
    by (rule contains_iff)
  have 1: "resources_read ?d None = Inl (HTTPException 400 ''Invalid uri'')"
    by (simp add: resources_read_def)
  have 2: "resources_read ?d (Some u) = Inl (HTTPException 400 ''Invalid uri'')"
    if "\<nexists>pre post. u = pre @ ''://'' @ post"
    using that c by (simp add: resources_read_def)
  have 3: "resources_read ?d (Some u) = Inl (HTTPException 404 ''Not found'')"
    if "\<exists>pre post. u = pre @ ''://'' @ post" "resolve_symbol ?d (last_segment u) = None"
    using that c by (simp add: resources_read_def read_text_def)
  have 4: "\<exists>r. find_row ?d s = Some r \<and>
      resources_read ?d (Some u) = Inr (ReadResult [(u, ''text'', body r)])"
    if p: "\<exists>pre post. u = pre @ ''://'' @ post"
      and q: "resolve_symbol ?d (last_segment u) = Some s"
  proof -
    obtain r where "s \<noteq> []" "find_row ?d s = Some r"
      using resolve_has_row[OF store_ok_reachable q] by blast
    then show ?thesis using p q c
      by (simp add: resources_read_def read_text_def)
  qed
  show ?thesis using 1 2 3 4 by blast
qed


theorem read_outcomes_witness:
  "resources_read (run_requests id [(''t1'', save_one)] init_db)
     (Some ''resource://sm/v1/texts/one'') =
     Inr (ReadResult [(''resource://sm/v1/texts/one'', ''text'', ''hello world one'')]) \<and>
   resources_read (run_requests id [(''t1'', save_one)] init_db)
     (Some ''resource://sm/v1/texts/two'') = Inl (HTTPException 404 ''Not found'') \<and>
   resources_read (run_requests id [(''t1'', save_one)] init_db) (Some ''one'') =
     Inl (HTTPException 400 ''Invalid uri'')"
proof -
  let ?d = "run_requests id [(''t1'', save_one)] init_db"
  have e1: "\<exists>pre post. ''resource://sm/v1/texts/one'' = pre @ ''://'' @ post"
    by (rule exI[of _ "''resource''"], rule exI[of _ "''sm/v1/texts/one''"]) simp
  have e2: "\<exists>pre post. ''resource://sm/v1/texts/two'' = pre @ ''://'' @ post"
    by (rule exI[of _ "''resource''"], rule exI[of _ "''sm/v1/texts/two''"]) simp
  have e3: "\<nexists>pre post. ''one'' = pre @ ''://'' @ post"
  proof -
    have "\<not> contains ''://'' ''one''" by simp
    then show ?thesis using contains_iff[of "''://''" "''one''"] by blast
  qed
  have r1: "resolve_symbol ?d (last_segment ''resource://sm/v1/texts/one'') = Some ''TST.ONE''"
    by code_simp
  have r2: "resolve_symbol ?d (last_segment ''resource://sm/v1/texts/two'') = None"
    by code_simp
  have f: "map_option body (find_row ?d ''TST.ONE'') = Some ''hello world one''"
    by code_simp
  obtain r where "find_row ?d ''TST.ONE'' = Some r"
    "resources_read ?d (Some ''resource://sm/v1/texts/one'') =
       Inr (ReadResult [(''resource://sm/v1/texts/one'', ''text'', body r)])"
    using read_outcomes[of id "[(''t1'', save_one)]" "''resource://sm/v1/texts/one''" "''TST.ONE''"]
      e1 r1 by blast
  then have 1: "resources_read ?d (Some ''resource://sm/v1/texts/one'') =
       Inr (ReadResult [(''resource://sm/v1/texts/one'', ''text'', ''hello world one'')])"
    using f by simp
  have 2: "resources_read ?d (Some ''resource://sm/v1/texts/two'') =
       Inl (HTTPException 404 ''Not found'')"
    using read_outcomes[of id "[(''t1'', save_one)]" "''resource://sm/v1/texts/two''"] e2 r2
    by blast
  have 3: "resources_read ?d (Some ''one'') = Inl (HTTPException 400 ''Invalid uri'')"
    using read_outcomes[of id "[(''t1'', save_one)]" "''one''"] e3 by blast
  show ?thesis using 1 2 3 by blast
qed

theorem read_any_scheme_counterexample:
  "take 23 ''x://TST.ONE'' \<noteq> ''resource://sm/v1/texts/'' \<and>
   resources_read (run_requests id [(''t1'', save_one)] init_db) (Some ''x://TST.ONE'') =
     Inr (ReadResult [(''x://TST.ONE'', ''text'', ''hello world one'')])"
  by code_simp

section \<open>The similarity threshold\<close>

lemma scan_row_neighbors:
  "neighbors (scan_row nt ms st r) =
     neighbors st @
     (if (truthy (cat r) \<or> truthy (subcat r)) \<and> \<not> row_sim nt r < ms
      then [(symbol r, row_sim nt r)] else [])"
  by (auto simp: scan_row_def Let_def row_sim_def truthy_def split: option.splits)

lemma scan_rows_neighbors_aux:
  "neighbors (foldl (scan_row nt ms) st rows) =
     neighbors st @ map (\<lambda>r. (symbol r, row_sim nt r))
       (filter (\<lambda>r. (truthy (cat r) \<or> truthy (subcat r)) \<and> \<not> row_sim nt r < ms) rows)"
  by (induction rows arbitrary: st) (simp_all add: scan_row_neighbors)

lemma scan_rows_neighbors:
  "neighbors (scan_rows nt ms rows) =
     map (\<lambda>r. (symbol r, row_sim nt r))
       (filter (\<lambda>r. (truthy (cat r) \<or> truthy (subcat r)) \<and> \<not> row_sim nt r < ms) rows)"
  by (simp add: scan_rows_def scan_rows_neighbors_aux scan_init_def)

lemma dict_get_update:
  "dict_get (AList.update k v al) c dflt = (if c = k then v else dict_get al c dflt)"
  by (simp add: dict_get_def update_conv')

lemma scan_row_cat_score:
  assumes "c \<noteq> []"
  shows "dict_get (cat_scores (scan_row nt ms st r)) c 0 =
     dict_get (cat_scores st) c 0 +
     (if cat r = Some c \<and> \<not> row_sim nt r < ms then row_sim nt r else 0)"
  using assms
  by (auto simp: scan_row_def Let_def row_sim_def truthy_def dict_get_update
      split: option.splits)

lemma scan_rows_cat_score_aux:
  assumes "c \<noteq> []"
  shows "dict_get (cat_scores (foldl (scan_row nt ms) st rows)) c 0 =
     dict_get (cat_scores st) c 0 +
     sum_list (map (row_sim nt) (filter (\<lambda>r. cat r = Some c \<and> \<not> row_sim nt r < ms) rows))"
  by (induction rows arbitrary: st) (simp_all add: scan_row_cat_score[OF assms])

lemma scan_rows_cat_score:
  assumes "c \<noteq> []"
  shows "dict_get (cat_scores (scan_rows nt ms rows)) c 0 =
     sum_list (map (row_sim nt) (filter (\<lambda>r. cat r = Some c \<and> \<not> row_sim nt r < ms) rows))"
proof -
  have "dict_get (cat_scores scan_init) c 0 = 0"
    by (simp add: scan_init_def dict_get_def)
  then show ?thesis
    unfolding scan_rows_def
    using scan_rows_cat_score_aux[OF assms, of nt ms scan_init rows] by simp
qed


section \<open>The saved entry as its own neighbour\<close>

lemma jaccard_self: "a \<noteq> [] \<Longrightarrow> jaccard a a = 1"
proof -
  assume "a \<noteq> []"
  then have "card (set a) \<noteq> 0" by (simp add: card_eq_0_iff)
  then show ?thesis using \<open>a \<noteq> []\<close> by (simp add: jaccard_def Let_def)
qed

lemma jaccard_nonneg: "0 \<le> jaccard a b"
  by (simp add: jaccard_def Let_def)

lemma member_le_sum_list_rat:
  fixes xs :: "rat list"
  shows "x \<in> set xs \<Longrightarrow> \<forall>y \<in> set xs. 0 \<le> y \<Longrightarrow> x \<le> sum_list xs"
proof (induction xs)
  case Nil
  then show ?case by simp
next
  case (Cons y ys)
  have nn: "0 \<le> sum_list ys" using Cons.prems(2) by (simp add: sum_list_nonneg)
  show ?case
  proof (cases "x = y")
    case True
    then show ?thesis using nn by simp
  next
    case False
    then have "x \<le> sum_list ys" using Cons by simp
    moreover have "0 \<le> y" using Cons.prems(2) by simp
    ultimately show ?thesis by simp
  qed
qed

text \<open>
  Claim C9, as the code has it. For every validated save that supplies a non-empty
  category and omits the subcategory, whose symbol and text yield at least one token, and
  after which the store holds at most 2000 rows with a category or subcategory (so that
  the limit of the scan does not cut the saved row off): the scan after the save contains
  the saved row, its similarity to its own request is 1, the aggregate of its category is
  at least 1, and the suggestion result is present.
\<close>

theorem saved_entry_votes_for_itself:
  assumes p: "parse_SaveArgs raw = Inr args"
    and c: "a_cat args = Some c" "c \<noteq> []"
    and n: "a_subcat args = None"
    and t: "tokenize (a_symbol args @ '' '' @ a_text args) 80 \<noteq> []"
    and l: "length (filter (\<lambda>r. cat r \<noteq> None \<or> subcat r \<noteq> None)
              (texts (snd (save_text H ts args d)))) \<le> 2000"
  shows "\<exists>res sug r.
     tools_save H ts raw d = (Inr (SaveResult res (Some sug)), snd (save_text H ts args d)) \<and>
     r \<in> set (select_tagged (snd (save_text H ts args d)) 2000) \<and>
     symbol r = a_symbol args \<and>
     row_sim (tokenize (a_symbol args @ '' '' @ a_text args) 80) r = 1 \<and>
     1 \<le> dict_get (cat_scores (scan_rows (tokenize (a_symbol args @ '' '' @ a_text args) 80)
            (1 / 10) (select_tagged (snd (save_text H ts args d)) 2000))) c 0"
proof -
  let ?d = "snd (save_text H ts args d)"
  let ?nt = "tokenize (a_symbol args @ '' '' @ a_text args) 80"
  let ?rows = "select_tagged ?d 2000"
  obtain r where r: "find_row ?d (a_symbol args) = Some r" "body r = a_text args"
    "cat r = a_cat args" "symbol r = a_symbol args"
    using find_row_save_same by blast
  have rin: "r \<in> set (texts ?d)"
    using find_row_Some_symbol[OF r(1)] by simp
  have sel: "?rows = filter (\<lambda>r. cat r \<noteq> None \<or> subcat r \<noteq> None) (texts ?d)"
    using l by (simp add: select_tagged_def)
  have rsel: "r \<in> set ?rows"
    using rin r(3) c(1) by (simp add: sel)
  have sim: "row_sim ?nt r = 1"
    using t by (simp add: row_sim_def r jaccard_self)
  have tr: "truthy (cat r)" using r(3) c by (simp add: truthy_def)
  have present: "suggest_taxonomy ?d (a_symbol args) (a_text args) 2000 (1 / 10) \<noteq> Inr None"
    using suggest_absent_iff[of ?d "a_symbol args" "a_text args" 2000 "1 / 10"] t rsel sim tr
    by auto
  obtain sug0 where s0: "suggest_taxonomy ?d (a_symbol args) (a_text args) 2000 (1 / 10) = Inr sug0"
    using suggest_no_error by blast
  obtain sug where sg: "sug0 = Some sug"
    using present s0 by (cases sug0) auto
  have ts: "tools_save H ts raw d =
      (Inr (SaveResult (fst (save_text H ts args d)) (Some sug)), ?d)"
    using p s0 n sg by (auto simp: tools_save_def Let_def split: prod.splits)
  have inset: "row_sim ?nt r \<in> set (map (row_sim ?nt)
      (filter (\<lambda>r. cat r = Some c \<and> \<not> row_sim ?nt r < 1 / 10) ?rows))"
    using rsel r(3) c(1) sim by auto
  have nonneg: "\<forall>y \<in> set (map (row_sim ?nt)
      (filter (\<lambda>r. cat r = Some c \<and> \<not> row_sim ?nt r < 1 / 10) ?rows)). 0 \<le> y"
    by (auto simp: row_sim_def jaccard_nonneg)
  have sc: "1 \<le> dict_get (cat_scores (scan_rows ?nt (1 / 10) ?rows)) c 0"
    using member_le_sum_list_rat[OF inset nonneg] sim
    by (simp add: scan_rows_cat_score[OF c(2)])
  show ?thesis
    using ts rsel r(4) sim sc by (intro exI conjI)
qed

theorem saved_entry_votes_for_itself_witness:
  "\<exists>res sug. fst (tools_save id ''t1'' save_cat_raw smoke_db) = Inr (SaveResult res (Some sug))"
proof -
  have p: "parse_SaveArgs save_cat_raw =
     Inr \<lparr>a_symbol = ''a'', a_text = ''b'', a_cat = Some ''x'', a_subcat = None,
          a_aliases = None\<rparr>"
    by (simp add: parse_SaveArgs_def)
  have t: "tokenize (''a'' @ '' '' @ ''b'') 80 \<noteq> []" by code_simp
  have l: "length (filter (\<lambda>r. cat r \<noteq> None \<or> subcat r \<noteq> None)
      (texts (snd (save_text id ''t1''
         \<lparr>a_symbol = ''a'', a_text = ''b'', a_cat = Some ''x'', a_subcat = None,
          a_aliases = None\<rparr> smoke_db)))) \<le> 2000"
    by code_simp
  show ?thesis
    using saved_entry_votes_for_itself[OF p, of "''x''" id "''t1''" smoke_db] t l
    by fastforce
qed

theorem saved_entry_absent_counterexample:
  "fst (tools_save id ''t1'' save_dot_raw init_db) =
     Inr (SaveResult \<lparr>status = ''created'', res_symbol = ''.'', res_hash = ''!'',
            res_ts_created = ''t1'', res_ts_updated = ''t1'', prev = (None, None)\<rparr> None) \<and>
   fst (tools_save id ''t1'' save_blank_cat_raw init_db) =
     Inr (SaveResult \<lparr>status = ''created'', res_symbol = ''a'', res_hash = ''b'',
            res_ts_created = ''t1'', res_ts_updated = ''t1'', prev = (None, None)\<rparr> None)"
  by code_simp

section \<open>Save, then read through the endpoint\<close>

lemma last_segment_texts_uri:
  assumes "CHR ''/'' \<notin> set s"
  shows "last_segment (''resource://sm/v1/texts/'' @ s) = s"
proof -
  have a: "takeWhile (\<lambda>c. c \<noteq> CHR ''/'') (rev s @ rev ''resource://sm/v1/texts/'') =
      rev s @ takeWhile (\<lambda>c. c \<noteq> CHR ''/'') (rev ''resource://sm/v1/texts/'')"
    using assms by (intro takeWhile_append2) auto
  have b: "takeWhile (\<lambda>c. c \<noteq> CHR ''/'') (rev ''resource://sm/v1/texts/'') = []"
    by simp
  show ?thesis
    unfolding last_segment_def rev_append a b by simp
qed

lemma contains_texts_uri: "contains ''://'' (''resource://sm/v1/texts/'' @ s)"
proof -
  have "''resource://sm/v1/texts/'' @ s = ''resource'' @ ''://'' @ (''sm/v1/texts/'' @ s)"
    by simp
  then show ?thesis unfolding contains_iff by blast
qed

lemma cmd_get_read_text:
  assumes "CHR ''/'' \<notin> set s"
  shows "cmd_get H ts s d =
     (case read_text d s of Inl e \<Rightarrow> Inl (RuntimeError e) | Inr b \<Rightarrow> Inr b)"
  using contains_texts_uri[of s] last_segment_texts_uri[OF assms]
  by (simp add: cmd_get_def mcp_def resources_read_def split: sum.splits)

text \<open>
  Claim C1, as the code has it. The read of the program is \<^verbatim>\<open>resources/read\<close>, which
  resolves the segment after the last slash of the uri; the client builds the uri from the
  name. For every validated save whose symbol contains no slash, getting the symbol
  afterwards returns exactly the saved body. For every alias of that save that, stripped
  of surrounding white space, is not empty, contains no slash and is not the symbol of a
  row stored before the save, getting the stripped alias returns the same body as getting
  the symbol. (An alias is stored stripped, and a symbol of that name wins over the alias.)
\<close>

theorem save_then_read:
  assumes p: "parse_SaveArgs raw = Inr args"
    and s: "CHR ''/'' \<notin> set (a_symbol args)"
  shows "cmd_get H' ts' (a_symbol args) (snd (tools_save H ts raw d)) = Inr (a_text args) \<and>
    (\<forall>a \<in> set (case a_aliases args of None \<Rightarrow> [] | Some as \<Rightarrow> as).
       strip a \<noteq> [] \<and> CHR ''/'' \<notin> set (strip a) \<and> find_row d (strip a) = None \<longrightarrow>
       cmd_get H' ts' (strip a) (snd (tools_save H ts raw d)) =
         cmd_get H' ts' (a_symbol args) (snd (tools_save H ts raw d)))"
proof -
  have ne: "a_symbol args \<noteq> []" using p by (rule parse_symbol_nonempty)
  have db: "snd (tools_save H ts raw d) = snd (save_text H ts args d)"
    using p by (simp add: db_tools_save)
  have 1: "cmd_get H' ts' (a_symbol args) (snd (save_text H ts args d)) = Inr (a_text args)"
    by (simp add: cmd_get_read_text[OF s] read_text_saved[OF ne])
  have 2: "cmd_get H' ts' (strip a) (snd (save_text H ts args d)) = Inr (a_text args)"
    if "a_aliases args = Some as" "a \<in> set as" "strip a \<noteq> []"
      "CHR ''/'' \<notin> set (strip a)" "find_row d (strip a) = None" for a as
    using that by (simp add: cmd_get_read_text read_text_alias[OF ne])
  show ?thesis
  proof (cases "a_aliases args")
    case None
    then show ?thesis using 1 db by simp
  next
    case (Some as)
    then show ?thesis using 1 2 db by simp
  qed
qed

theorem save_then_read_witness:
  "cmd_get id ''t2'' ''A'' (snd (tools_save id ''t1'' save_a_raw smoke_db)) = Inr ''aa'' \<and>
   cmd_get id ''t2'' ''x'' (snd (tools_save id ''t1'' save_a_raw smoke_db)) = Inr ''aa'' \<and>
   cmd_get id ''t2'' ''y'' (snd (tools_save id ''t1'' save_a_raw smoke_db)) = Inr ''aa''"
proof -
  have p: "parse_SaveArgs save_a_raw =
     Inr \<lparr>a_symbol = ''A'', a_text = ''aa'', a_cat = None, a_subcat = None,
          a_aliases = Some [''B'', '' x '', ''y'']\<rparr>"
    by (simp add: parse_SaveArgs_def)
  have st: "strip '' x '' = ''x''" "strip ''y'' = ''y''"
    by code_simp+
  have f: "find_row smoke_db ''x'' = None" "find_row smoke_db ''y'' = None"
    by (simp_all add: find_row_def)
  show ?thesis
    using save_then_read[OF p, of id "''t2''" id "''t1''" smoke_db] st f by simp
qed

theorem save_then_read_counterexample:
  "cmd_get id ''t2'' ''A''
     (snd (tools_save id ''t1'' save_a_raw \<lparr>texts = [row_b], aliases = []\<rparr>)) = Inr ''aa'' \<and>
   cmd_get id ''t2'' ''B''
     (snd (tools_save id ''t1'' save_a_raw \<lparr>texts = [row_b], aliases = []\<rparr>)) = Inr ''bb'' \<and>
   cmd_get id ''t2'' '' x ''
     (snd (tools_save id ''t1'' save_a_raw \<lparr>texts = [row_b], aliases = []\<rparr>)) =
     Inl (RuntimeError (HTTPException 404 ''Not found'')) \<and>
   cmd_get id ''t2'' ''a/b'' (snd (tools_save id ''t1'' save_slash_raw init_db)) =
     Inl (RuntimeError (HTTPException 404 ''Not found''))"
  by code_simp

section \<open>The threshold in the endpoint\<close>

lemma scan_row_pair_score:
  "dict_get (subcat_scores (scan_row nt ms st r)) k 0 =
     dict_get (subcat_scores st) k 0 +
     (if pair_key r = Some k \<and> \<not> row_sim nt r < ms then row_sim nt r else 0)"
  by (auto simp: scan_row_def Let_def row_sim_def truthy_def dict_get_update pair_key_def
      split: option.splits)

lemma scan_rows_pair_score_aux:
  "dict_get (subcat_scores (foldl (scan_row nt ms) st rows)) k 0 =
     dict_get (subcat_scores st) k 0 +
     sum_list (map (row_sim nt) (filter (\<lambda>r. pair_key r = Some k \<and> \<not> row_sim nt r < ms) rows))"
  by (induction rows arbitrary: st) (simp_all add: scan_row_pair_score)

lemma scan_rows_pair_score:
  "dict_get (subcat_scores (scan_rows nt ms rows)) k 0 =
     sum_list (map (row_sim nt) (filter (\<lambda>r. pair_key r = Some k \<and> \<not> row_sim nt r < ms) rows))"
proof -
  have "dict_get (subcat_scores scan_init) k 0 = 0"
    by (simp add: scan_init_def dict_get_def)
  then show ?thesis
    unfolding scan_rows_def
    using scan_rows_pair_score_aux[of nt ms scan_init rows k] by simp
qed

lemma suggest_taxonomy_Some:
  assumes "suggest_taxonomy d sy tx lr ms = Inr (Some sug)"
  shows "sg_cat sug = top_n (cat_scores (scan_rows (tokenize (sy @ '' '' @ tx) 80) ms
                                (select_tagged d lr))) 3 \<and>
    subcat_entries
      (total_or_one (subcat_scores (scan_rows (tokenize (sy @ '' '' @ tx) 80) ms
                                      (select_tagged d lr))))
      (take 3 (sorted_desc (subcat_scores (scan_rows (tokenize (sy @ '' '' @ tx) 80) ms
                                             (select_tagged d lr))))) = Inr (sg_subcat sug) \<and>
    sg_neighbors sug =
      map (\<lambda>(s, sim). (s, round4 sim))
        (take 5 (sorted_desc (neighbors (scan_rows (tokenize (sy @ '' '' @ tx) 80) ms
                                           (select_tagged d lr)))))"
proof -
  let ?st = "scan_rows (tokenize (sy @ '' '' @ tx) 80) ms (select_tagged d lr)"
  show ?thesis
  proof (cases "subcat_scores ?st = []")
    case True
    then show ?thesis using assms
      by (auto simp: suggest_taxonomy_def Let_def sorted_desc_def split: if_splits)
  next
    case False
    then show ?thesis using assms
      by (auto simp: suggest_taxonomy_def Let_def split: if_splits sum.splits)
  qed
qed

lemma suggest_taxonomy_None_iff:
  "suggest_taxonomy d sy tx lr ms = Inr None \<longleftrightarrow>
     tokenize (sy @ '' '' @ tx) 80 = [] \<or>
     cat_scores (scan_rows (tokenize (sy @ '' '' @ tx) 80) ms (select_tagged d lr)) = []"
  by (simp add: suggest_absent_iff scan_rows_cat_empty)

text \<open>
  Claim C7. The endpoint answers a save that lacks a category or a subcategory with the
  suggestions computed from the scan of the stored rows at the minimal similarity 0.10:
  the result is absent exactly when the new entry has no token or the scan has no category
  aggregate, and otherwise its three lists are built from the aggregates and neighbours of
  that scan. In that scan a row is kept exactly when its similarity to the new entry is at
  least 0.10: the neighbours are the rows with a taxonomy and a similarity of at least
  0.10, the aggregate of a category is the sum of the similarities of its rows with at
  least 0.10, and the aggregate of a (category, subcategory) pair is the sum over the rows
  of that pair with at least 0.10. So a row at exactly 0.10 is counted in all three, and a
  row strictly below 0.10 in none.
\<close>

theorem boundary_row_is_aggregated:
  assumes p: "parse_SaveArgs raw = Inr args"
    and m: "a_cat args = None \<or> a_subcat args = None"
  shows "(\<exists>res sug.
      tools_save H ts raw d = (Inr (SaveResult res sug), snd (save_text H ts args d)) \<and>
      (sug = None \<longleftrightarrow>
         tokenize (a_symbol args @ '' '' @ a_text args) 80 = [] \<or>
         cat_scores (endpoint_scan H ts args d) = []) \<and>
      (\<forall>s. sug = Some s \<longrightarrow>
         sg_cat s = top_n (cat_scores (endpoint_scan H ts args d)) 3 \<and>
         subcat_entries (total_or_one (subcat_scores (endpoint_scan H ts args d)))
           (take 3 (sorted_desc (subcat_scores (endpoint_scan H ts args d)))) =
           Inr (sg_subcat s) \<and>
         sg_neighbors s =
           map (\<lambda>(s, sim). (s, round4 sim))
             (take 5 (sorted_desc (neighbors (endpoint_scan H ts args d)))))) \<and>
    neighbors (endpoint_scan H ts args d) =
      map (\<lambda>r. (symbol r, row_sim (tokenize (a_symbol args @ '' '' @ a_text args) 80) r))
        (filter (\<lambda>r. (truthy (cat r) \<or> truthy (subcat r)) \<and>
                  1 / 10 \<le> row_sim (tokenize (a_symbol args @ '' '' @ a_text args) 80) r)
           (select_tagged (snd (save_text H ts args d)) 2000)) \<and>
    (\<forall>c. c \<noteq> [] \<longrightarrow>
       dict_get (cat_scores (endpoint_scan H ts args d)) c 0 =
         sum_list (map (row_sim (tokenize (a_symbol args @ '' '' @ a_text args) 80))
           (filter (\<lambda>r. cat r = Some c \<and>
                     1 / 10 \<le> row_sim (tokenize (a_symbol args @ '' '' @ a_text args) 80) r)
              (select_tagged (snd (save_text H ts args d)) 2000)))) \<and>
    (\<forall>k. dict_get (subcat_scores (endpoint_scan H ts args d)) k 0 =
         sum_list (map (row_sim (tokenize (a_symbol args @ '' '' @ a_text args) 80))
           (filter (\<lambda>r. pair_key r = Some k \<and>
                     1 / 10 \<le> row_sim (tokenize (a_symbol args @ '' '' @ a_text args) 80) r)
              (select_tagged (snd (save_text H ts args d)) 2000))))"
proof -
  let ?d = "snd (save_text H ts args d)"
  let ?nt = "tokenize (a_symbol args @ '' '' @ a_text args) 80"
  let ?rows = "select_tagged ?d 2000"
  let ?st = "scan_rows ?nt (1 / 10) ?rows"
  obtain sug where sg: "suggest_taxonomy ?d (a_symbol args) (a_text args) 2000 (1 / 10) = Inr sug"
    using suggest_no_error by blast
  have ts: "tools_save H ts raw d = (Inr (SaveResult (fst (save_text H ts args d)) sug), ?d)"
    using p m sg by (auto simp: tools_save_def Let_def split: prod.splits)
  have none: "sug = None \<longleftrightarrow> ?nt = [] \<or> cat_scores ?st = []"
    using sg suggest_taxonomy_None_iff[of ?d "a_symbol args" "a_text args" 2000 "1 / 10"]
    by auto
  have some: "\<forall>s. sug = Some s \<longrightarrow>
         sg_cat s = top_n (cat_scores ?st) 3 \<and>
         subcat_entries (total_or_one (subcat_scores ?st))
           (take 3 (sorted_desc (subcat_scores ?st))) = Inr (sg_subcat s) \<and>
         sg_neighbors s =
           map (\<lambda>(s, sim). (s, round4 sim)) (take 5 (sorted_desc (neighbors ?st)))"
    using sg suggest_taxonomy_Some[of ?d "a_symbol args" "a_text args" 2000 "1 / 10"]
    by auto
  have 1: "\<exists>res sug.
      tools_save H ts raw d = (Inr (SaveResult res sug), ?d) \<and>
      (sug = None \<longleftrightarrow> ?nt = [] \<or> cat_scores ?st = []) \<and>
      (\<forall>s. sug = Some s \<longrightarrow>
         sg_cat s = top_n (cat_scores ?st) 3 \<and>
         subcat_entries (total_or_one (subcat_scores ?st))
           (take 3 (sorted_desc (subcat_scores ?st))) = Inr (sg_subcat s) \<and>
         sg_neighbors s =
           map (\<lambda>(s, sim). (s, round4 sim)) (take 5 (sorted_desc (neighbors ?st))))"
    using ts none some by (intro exI conjI)
  have 2: "neighbors ?st =
      map (\<lambda>r. (symbol r, row_sim ?nt r))
        (filter (\<lambda>r. (truthy (cat r) \<or> truthy (subcat r)) \<and> 1 / 10 \<le> row_sim ?nt r) ?rows)"
    by (simp add: scan_rows_neighbors not_less)
  have 3: "\<forall>c. c \<noteq> [] \<longrightarrow>
       dict_get (cat_scores ?st) c 0 =
         sum_list (map (row_sim ?nt)
           (filter (\<lambda>r. cat r = Some c \<and> 1 / 10 \<le> row_sim ?nt r) ?rows))"
    by (simp add: scan_rows_cat_score not_less)
  have 4: "\<forall>k. dict_get (subcat_scores ?st) k 0 =
         sum_list (map (row_sim ?nt)
           (filter (\<lambda>r. pair_key r = Some k \<and> 1 / 10 \<le> row_sim ?nt r) ?rows))"
    by (simp add: scan_rows_pair_score not_less)
  show ?thesis using 1 2 3 4 by (intro conjI)
qed

theorem boundary_row_is_aggregated_witness:
  "row_sim (tokenize (''s'' @ '' '' @ ''a b c d'') 80) pair_row = 1 / 10 \<and>
   row_sim (tokenize (''s'' @ '' '' @ ''a b c d'') 80) eleventh_row = 1 / 11 \<and>
   fst (tools_save id ''t1'' save_s_raw pair_db) =
     Inr (SaveResult
       \<lparr>status = ''created'', res_symbol = ''s'', res_hash = ''a b c d'',
        res_ts_created = ''t1'', res_ts_updated = ''t1'', prev = (None, None)\<rparr>
       (Some \<lparr>sg_cat = [(''k'', 1)], sg_subcat = [(''k'', ''p'', 1)],
              sg_neighbors = [(''n'', 1 / 10)]\<rparr>)) \<and>
   neighbors (endpoint_scan id ''t1'' save_s pair_db) = [(''n'', 1 / 10)] \<and>
   dict_get (cat_scores (endpoint_scan id ''t1'' save_s pair_db)) ''k'' 0 = 1 / 10 \<and>
   dict_get (subcat_scores (endpoint_scan id ''t1'' save_s pair_db)) ''k::p'' 0 = 1 / 10"
proof -
  let ?nt = "tokenize (''s'' @ '' '' @ ''a b c d'') 80"
  let ?rows = "select_tagged (snd (save_text id ''t1'' save_s pair_db)) 2000"
  have p: "parse_SaveArgs save_s_raw = Inr save_s"
    by (simp add: parse_SaveArgs_def)
  have m: "a_cat save_s = None \<or> a_subcat save_s = None" by simp
  have a: "row_sim ?nt pair_row = 1 / 10" by code_simp
  have b: "row_sim ?nt eleventh_row = 1 / 11" by code_simp
  have e: "fst (tools_save id ''t1'' save_s_raw pair_db) =
     Inr (SaveResult
       \<lparr>status = ''created'', res_symbol = ''s'', res_hash = ''a b c d'',
        res_ts_created = ''t1'', res_ts_updated = ''t1'', prev = (None, None)\<rparr>
       (Some \<lparr>sg_cat = [(''k'', 1)], sg_subcat = [(''k'', ''p'', 1)],
              sg_neighbors = [(''n'', 1 / 10)]\<rparr>))"
    by code_simp
  have n: "map (\<lambda>r. (symbol r, row_sim ?nt r))
        (filter (\<lambda>r. (truthy (cat r) \<or> truthy (subcat r)) \<and> 1 / 10 \<le> row_sim ?nt r) ?rows) =
      [(''n'', 1 / 10)]"
    by code_simp
  have c: "sum_list (map (row_sim ?nt)
      (filter (\<lambda>r. cat r = Some ''k'' \<and> 1 / 10 \<le> row_sim ?nt r) ?rows)) = 1 / 10"
    by code_simp
  have k: "sum_list (map (row_sim ?nt)
      (filter (\<lambda>r. pair_key r = Some ''k::p'' \<and> 1 / 10 \<le> row_sim ?nt r) ?rows)) = 1 / 10"
    by code_simp
  note t = boundary_row_is_aggregated[OF p m, of id "''t1''" pair_db]
  have n': "neighbors (endpoint_scan id ''t1'' save_s pair_db) = [(''n'', 1 / 10)]"
    using t n by simp
  have c': "dict_get (cat_scores (endpoint_scan id ''t1'' save_s pair_db)) ''k'' 0 = 1 / 10"
    using t c by simp
  have k': "dict_get (subcat_scores (endpoint_scan id ''t1'' save_s pair_db)) ''k::p'' 0 = 1 / 10"
    using t k by simp
  show ?thesis using a b e n' c' k' by (intro conjI)
qed

section \<open>The sums of the scores\<close>





















section \<open>The selection step and the default answer\<close>

lemma split_first_rest:
  "split_first (c @ ''::'' @ s) = Some (a, b) \<Longrightarrow> length s \<le> length b"
proof (induction c arbitrary: a)
  case Nil
  then show ?case by simp
next
  case (Cons x c)
  then show ?case by (cases c) (auto split: option.splits if_splits)
qed

lemma scan_row_subcat_named:
  "subcat_scores (scan_row nt ms st r) = subcat_scores st \<or>
   (\<exists>c s v. s \<noteq> [] \<and> subcat_scores (scan_row nt ms st r) =
      AList.update (c @ ''::'' @ s) v (subcat_scores st))"
  by (auto simp: scan_row_def Let_def split: option.splits)

lemma scan_row_rest_named:
  assumes "\<forall>k \<in> fst ` set (subcat_scores st). \<forall>a b. split_first k = Some (a, b) \<longrightarrow> b \<noteq> []"
  shows "\<forall>k \<in> fst ` set (subcat_scores (scan_row nt ms st r)).
           \<forall>a b. split_first k = Some (a, b) \<longrightarrow> b \<noteq> []"
proof -
  consider "subcat_scores (scan_row nt ms st r) = subcat_scores st"
    | c s v where "s \<noteq> []" "subcat_scores (scan_row nt ms st r) =
        AList.update (c @ ''::'' @ s) v (subcat_scores st)"
    using scan_row_subcat_named by blast
  then show ?thesis
  proof cases
    case 1
    then show ?thesis using assms by simp
  next
    case 2
    have "\<forall>a b. split_first (c @ ''::'' @ s) = Some (a, b) \<longrightarrow> b \<noteq> []"
      using split_first_rest[of c s] 2(1) by fastforce
    then show ?thesis using assms 2(2)
      by (simp add: dom_update)
  qed
qed

lemma scan_rows_rest_named_aux:
  "\<forall>k \<in> fst ` set (subcat_scores st). \<forall>a b. split_first k = Some (a, b) \<longrightarrow> b \<noteq> [] \<Longrightarrow>
   \<forall>k \<in> fst ` set (subcat_scores (foldl (scan_row nt ms) st rows)).
     \<forall>a b. split_first k = Some (a, b) \<longrightarrow> b \<noteq> []"
proof (induction rows arbitrary: st)
  case Nil
  then show ?case by simp
next
  case (Cons r rows)
  show ?case
    using Cons.IH[OF scan_row_rest_named[OF Cons.prems]] by simp
qed

lemma scan_rows_rest_named:
  "\<forall>k \<in> fst ` set (subcat_scores (scan_rows nt ms rows)).
     \<forall>a b. split_first k = Some (a, b) \<longrightarrow> b \<noteq> []"
  unfolding scan_rows_def by (rule scan_rows_rest_named_aux) (simp add: scan_init_def)

lemma scan_row_cat_named:
  "cat_scores (scan_row nt ms st r) = cat_scores st \<or>
   (\<exists>c v. c \<noteq> [] \<and> cat_scores (scan_row nt ms st r) = AList.update c v (cat_scores st))"
  by (auto simp: scan_row_def Let_def split: option.splits)

lemma scan_row_cat_keys:
  assumes "\<forall>k \<in> fst ` set (cat_scores st). k \<noteq> []"
  shows "\<forall>k \<in> fst ` set (cat_scores (scan_row nt ms st r)). k \<noteq> []"
proof -
  consider "cat_scores (scan_row nt ms st r) = cat_scores st"
    | c v where "c \<noteq> []" "cat_scores (scan_row nt ms st r) = AList.update c v (cat_scores st)"
    using scan_row_cat_named by blast
  then show ?thesis
  proof cases
    case 1
    then show ?thesis using assms by simp
  next
    case 2
    then show ?thesis using assms by (simp add: dom_update)
  qed
qed

lemma scan_rows_cat_keys_aux:
  "\<forall>k \<in> fst ` set (cat_scores st). k \<noteq> [] \<Longrightarrow>
   \<forall>k \<in> fst ` set (cat_scores (foldl (scan_row nt ms) st rows)). k \<noteq> []"
proof (induction rows arbitrary: st)
  case Nil
  then show ?case by simp
next
  case (Cons r rows)
  show ?case
    using Cons.IH[OF scan_row_cat_keys[OF Cons.prems]] by simp
qed

lemma scan_rows_cat_keys:
  "\<forall>k \<in> fst ` set (cat_scores (scan_rows nt ms rows)). k \<noteq> []"
  unfolding scan_rows_def by (rule scan_rows_cat_keys_aux) (simp add: scan_init_def)

lemma subcat_entries_named:
  "subcat_entries tot items = Inr out \<Longrightarrow>
   \<forall>k \<in> fst ` set items. \<forall>a b. split_first k = Some (a, b) \<longrightarrow> b \<noteq> [] \<Longrightarrow>
   \<forall>(c, v, sc) \<in> set out. v \<noteq> []"
proof (induction items arbitrary: out)
  case Nil
  then show ?case by simp
next
  case (Cons kv items)
  obtain k w where kv: "kv = (k, w)" by (cases kv) auto
  obtain c s where sp: "split_first k = Some (c, s)"
    using Cons.prems(1) kv by (auto split: option.splits)
  obtain out' where o': "subcat_entries tot items = Inr out'"
    using Cons.prems(1) kv sp by (auto split: sum.splits)
  have out: "out = (c, s, round4 (w / tot)) # out'"
    using Cons.prems(1) kv sp o' by simp
  have s: "s \<noteq> []" using Cons.prems(2) kv sp by simp
  have "\<forall>(c, v, sc) \<in> set out'. v \<noteq> []"
    using Cons.IH[OF o'] Cons.prems(2) by simp
  then show ?case using out s by simp
qed

text \<open>What the suggester returns names no empty category and no empty subcategory.\<close>

lemma server_suggestions_named:
  assumes "suggest_taxonomy d sy tx lr ms = Inr (Some sug)"
  shows "named_values sug"
proof -
  let ?st = "scan_rows (tokenize (sy @ '' '' @ tx) 80) ms (select_tagged d lr)"
  note f = suggest_taxonomy_Some[OF assms]
  have "fst ` set (top_n (cat_scores ?st) 3) \<subseteq> fst ` set (cat_scores ?st)"
    using set_top_subset[of 3 "cat_scores ?st"] by (force simp: top_n_def Let_def)
  then have c: "\<forall>(v, sc) \<in> set (sg_cat sug). v \<noteq> []"
    using scan_rows_cat_keys[of "tokenize (sy @ '' '' @ tx) 80" ms "select_tagged d lr"] f
    by fastforce
  have "\<forall>k \<in> fst ` set (take 3 (sorted_desc (subcat_scores ?st))).
          \<forall>a b. split_first k = Some (a, b) \<longrightarrow> b \<noteq> []"
    using scan_rows_rest_named set_top_subset by (meson image_mono subsetD)
  then have "\<forall>(c, v, sc) \<in> set (sg_subcat sug). v \<noteq> []"
    using subcat_entries_named f by blast
  then show ?thesis using c by (simp add: named_values_def)
qed




section \<open>Undoing the record of another symbol\<close>

text \<open>
  Claim C3, at a record that belongs to another symbol than the block being saved. In
  the store of the smoke test, a first run saves \<^verbatim>\<open>TST.TWO\<close> without taxonomy and accepts
  the suggestion, which leaves the record of \<^verbatim>\<open>TST.TWO\<close> with no previous category and
  no previous subcategory. A second run saves \<^verbatim>\<open>TST.THREE\<close> with another body and
  answers \<^verbatim>\<open>u\<close>. The write of the undo targets \<^verbatim>\<open>TST.TWO\<close>, sets its category and
  subcategory back to none, and leaves the record as it was; but its body is
  \<^verbatim>\<open>blk.body\<close>, the body of the block of the second run, so the stored body of
  \<^verbatim>\<open>TST.TWO\<close> is replaced by the body of \<^verbatim>\<open>TST.THREE\<close>.
\<close>

theorem undo_overwrites_other_body:
  "last_apply_file world1 =
     Some \<lparr>l_symbol = ''TST.TWO'', l_prev_cat = None, l_prev_subcat = None,
           l_new_cat = Some ''ai'', l_new_subcat = Some ''architecture.hybrid'',
           l_score = 1\<rparr> \<and>
   map_option body (find_row (server world1) ''TST.TWO'') =
     Some ''hybrid intelligence and symbolic memory'' \<and>
   map_option cat (find_row (server world1) ''TST.TWO'') = Some (Some ''ai'') \<and>
   fst (cmd_save id ''t3'' ''t4'' None blk_three answer_undo world1) =
     Inr (Undone \<lparr>status = ''updated'', res_symbol = ''TST.TWO'',
                   res_hash = ''hybrid memory other'', res_ts_created = ''t1'',
                   res_ts_updated = ''t4'',
                   prev = (Some ''ai'', Some ''architecture.hybrid'')\<rparr>) \<and>
   map_option body (find_row (server world2) ''TST.TWO'') = Some ''hybrid memory other'' \<and>
   map_option cat (find_row (server world2) ''TST.TWO'') = Some None \<and>
   map_option subcat (find_row (server world2) ''TST.TWO'') = Some None \<and>
   last_apply_file world2 = last_apply_file world1"
  by code_simp

end
